theory Spec2Isabelle
  imports Main
begin

section \<open>The relational store of bot.py\<close>

text \<open>
  The five tables created by \<open>init_db\<close> are lists of rows, in insertion order. Columns the
  program never reads back (\<open>created_at\<close>, the ledger's autoincrement \<open>id\<close>) are left out.
  A nullable column is an \<open>option\<close>. SQLite INTEGER columns hold Python ints and are
  modelled as \<open>int\<close>; text is a \<open>string\<close>, exact for ASCII text (a code point beyond
  ASCII is carried as its UTF-8 bytes and is neither whitespace nor a letter for the
  string functions below).
\<close>

datatype error = IntegrityError | OverflowError | TypeError

datatype json = JStr string | JInt int | JBool bool

type_synonym meta = "(string \<times> json) list"

record user_row =
  u_user_id :: int
  u_username :: "string option"
  u_ref_code :: "string option"
  u_referred_by :: "int option"
  u_wallet_address :: "string option"
  u_wallet_pending :: "string option"
  u_wallet_change_count :: "int option"
  u_state :: "string option"

record ledger_row =
  l_user_id :: int
  l_unique_key :: string
  l_type :: string
  l_amount :: int
  l_meta :: meta

record submission_row =
  s_user_id :: int
  s_mission_id :: string
  s_payload :: string

record fingerprint_row =
  f_mission_id :: string
  f_fingerprint :: string
  f_user_id :: int

record pending_row =
  p_user_id :: int
  p_mission_id :: string
  p_unique_key :: string
  p_amount :: int
  p_available_at_ts :: int

record db =
  users :: "user_row list"
  ledger :: "ledger_row list"
  submissions :: "submission_row list"
  recipe_fingerprints :: "fingerprint_row list"
  pending_rewards :: "pending_row list"

definition init_db :: db where
  "init_db = \<lparr>users = [], ledger = [], submissions = [], recipe_fingerprints = [],
     pending_rewards = []\<rparr>"

subsection \<open>Users\<close>

text \<open>\<open>SELECT * FROM users WHERE user_id = ?\<close>, \<open>fetchone\<close>.\<close>

definition get_user :: "db \<Rightarrow> int \<Rightarrow> user_row option" where
  "get_user s uid = find (\<lambda>r. u_user_id r = uid) (users s)"

text \<open>\<open>UPDATE users SET ... WHERE user_id = ?\<close>.\<close>

definition update_user :: "db \<Rightarrow> int \<Rightarrow> (user_row \<Rightarrow> user_row) \<Rightarrow> db" where
  "update_user s uid f = s\<lparr>users := map (\<lambda>r. if u_user_id r = uid then f r else r) (users s)\<rparr>"

text \<open>
  \<open>ensure_user\<close>: an existing row gets its username refreshed; otherwise a row is inserted
  with a referral code made from the random token \<open>tok\<close> (\<open>secrets.token_urlsafe(8)\<close>, taken
  as an input) with \<open>-\<close> and \<open>_\<close> removed. \<open>ref_code\<close> is UNIQUE, so a colliding code
  raises IntegrityError, which the function does not catch.
\<close>

definition ensure_user :: "db \<Rightarrow> int \<Rightarrow> string option \<Rightarrow> string \<Rightarrow> error + db" where
  "ensure_user s uid uname tok =
     (case get_user s uid of
        Some row \<Rightarrow> Inr (update_user s uid (\<lambda>r. r\<lparr>u_username := uname\<rparr>))
      | None \<Rightarrow>
          (let ref_code = filter (\<lambda>c. c \<noteq> CHR ''-'' \<and> c \<noteq> CHR ''_'') tok in
           if \<exists>r \<in> set (users s). u_ref_code r = Some ref_code then Inl IntegrityError
           else Inr (s\<lparr>users := users s @
                  [\<lparr>u_user_id = uid, u_username = uname, u_ref_code = Some ref_code,
                    u_referred_by = None, u_wallet_address = None, u_wallet_pending = None,
                    u_wallet_change_count = Some 0, u_state = None\<rparr>]\<rparr>)))"

definition set_state :: "db \<Rightarrow> int \<Rightarrow> string option \<Rightarrow> db" where
  "set_state s uid st = update_user s uid (\<lambda>r. r\<lparr>u_state := st\<rparr>)"

text \<open>Python truthiness of a nullable text column: \<open>None\<close> and the empty string are false.\<close>

definition truthy :: "string option \<Rightarrow> bool" where
  "truthy v = (case v of None \<Rightarrow> False | Some t \<Rightarrow> t \<noteq> [])"

definition has_wallet :: "db \<Rightarrow> int \<Rightarrow> bool" where
  "has_wallet s uid = (case get_user s uid of None \<Rightarrow> False | Some row \<Rightarrow> truthy (u_wallet_address row))"

subsection \<open>Points ledger\<close>

text \<open>
  \<open>add_points_once\<close>: the INSERT fails on UNIQUE(user_id, unique_key) with IntegrityError,
  which is caught and turned into the result False; nothing is written then.
\<close>

definition ledger_has :: "db \<Rightarrow> int \<Rightarrow> string \<Rightarrow> bool" where
  "ledger_has s uid key = (\<exists>r \<in> set (ledger s). l_user_id r = uid \<and> l_unique_key r = key)"

definition add_points_once :: "db \<Rightarrow> int \<Rightarrow> string \<Rightarrow> string \<Rightarrow> int \<Rightarrow> meta \<Rightarrow> bool \<times> db" where
  "add_points_once s uid key typ amt m =
     (if ledger_has s uid key then (False, s)
      else (True, s\<lparr>ledger := ledger s @
              [\<lparr>l_user_id = uid, l_unique_key = key, l_type = typ, l_amount = amt, l_meta = m\<rparr>]\<rparr>))"

text \<open>\<open>SELECT COALESCE(SUM(amount), 0) FROM ledger WHERE user_id = ?\<close>.\<close>

definition get_points :: "db \<Rightarrow> int \<Rightarrow> int" where
  "get_points s uid = sum_list (map l_amount (filter (\<lambda>r. l_user_id r = uid) (ledger s)))"

definition ledger_rows :: "db \<Rightarrow> int \<Rightarrow> string \<Rightarrow> ledger_row list" where
  "ledger_rows s uid key = filter (\<lambda>r. l_user_id r = uid \<and> l_unique_key r = key) (ledger s)"

text \<open>The constraint UNIQUE(user_id, unique_key) of the ledger table, as a property of a store.\<close>

definition ledger_unique :: "db \<Rightarrow> bool" where
  "ledger_unique s = distinct (map (\<lambda>r. (l_user_id r, l_unique_key r)) (ledger s))"

text \<open>
  The ledger of \<open>s'\<close> is the ledger of \<open>s\<close> followed by rows that all satisfy \<open>P\<close>: what a
  handler has inserted, the ledger being append-only.
\<close>

definition ledger_grows_by :: "db \<Rightarrow> db \<Rightarrow> (ledger_row \<Rightarrow> bool) \<Rightarrow> bool" where
  "ledger_grows_by s s' P =
     (take (length (ledger s)) (ledger s') = ledger s \<and>
      list_all P (drop (length (ledger s)) (ledger s')))"

section \<open>Text functions\<close>

text \<open>
  The characters Python's \<open>str.strip()\<close> and the regular expression class \<open>\s\<close> remove:
  space (32), tab, newline, vertical tab, form feed, carriage return (9 to 13) and the four
  separators 0x1C to 0x1F (28 to 31).
\<close>

definition is_space :: "char \<Rightarrow> bool" where
  "is_space c = (let n = (of_char c :: nat) in n = 32 \<or> (9 \<le> n \<and> n \<le> 13) \<or> (28 \<le> n \<and> n \<le> 31))"

definition lower_char :: "char \<Rightarrow> char" where
  "lower_char c = (let n = (of_char c :: nat) in if 65 \<le> n \<and> n \<le> 90 then char_of (n + 32) else c)"

definition lower :: "string \<Rightarrow> string" where
  "lower t = map lower_char t"

definition strip :: "string \<Rightarrow> string" where
  "strip t = rev (dropWhile is_space (rev (dropWhile is_space t)))"

definition is_digit :: "char \<Rightarrow> bool" where
  "is_digit c = (let n = (of_char c :: nat) in 48 \<le> n \<and> n \<le> 57)"

text \<open>\<open>[A-Za-z0-9_]\<close> and \<open>[a-fA-F0-9]\<close>.\<close>

definition is_word_char :: "char \<Rightarrow> bool" where
  "is_word_char c = (let n = (of_char c :: nat) in
     (65 \<le> n \<and> n \<le> 90) \<or> (97 \<le> n \<and> n \<le> 122) \<or> (48 \<le> n \<and> n \<le> 57) \<or> n = 95)"

definition is_hex :: "char \<Rightarrow> bool" where
  "is_hex c = (let n = (of_char c :: nat) in
     (97 \<le> n \<and> n \<le> 102) \<or> (65 \<le> n \<and> n \<le> 70) \<or> (48 \<le> n \<and> n \<le> 57))"

definition strip_prefix :: "string \<Rightarrow> string \<Rightarrow> string option" where
  "strip_prefix p t = (if take (length p) t = p then Some (drop (length p) t) else None)"

text \<open>
  \<open>$\<close> without MULTILINE matches at the end of the string and just before a newline that
  ends the string.
\<close>

definition end_of_string :: "string \<Rightarrow> bool" where
  "end_of_string r = (r = [] \<or> r = [CHR 0x0A])"

text \<open>\<open>WALLET_RE = ^0x[a-fA-F0-9]{40}$\<close>, used with \<open>match\<close>.\<close>

definition WALLET_RE :: "string \<Rightarrow> bool" where
  "WALLET_RE text =
     (case strip_prefix ''0x'' text of
        None \<Rightarrow> False
      | Some r \<Rightarrow> length (takeWhile is_hex r) = 40 \<and> end_of_string (dropWhile is_hex r))"

text \<open>\<open>X_PROFILE_URL_RE = ^https?://(www\.)?(x\.com|twitter\.com)/[A-Za-z0-9_]{1,15}/?$\<close>.\<close>

definition X_PROFILE_URL_RE :: "string \<Rightarrow> bool" where
  "X_PROFILE_URL_RE text =
     (case (case strip_prefix ''https://'' text of Some r \<Rightarrow> Some r
            | None \<Rightarrow> strip_prefix ''http://'' text) of
        None \<Rightarrow> False
      | Some r1 \<Rightarrow>
          (let r2 = (case strip_prefix ''www.'' r1 of Some r \<Rightarrow> r | None \<Rightarrow> r1) in
           case (case strip_prefix ''x.com/'' r2 of Some r \<Rightarrow> Some r
                 | None \<Rightarrow> strip_prefix ''twitter.com/'' r2) of
             None \<Rightarrow> False
           | Some r3 \<Rightarrow>
               (let name = takeWhile is_word_char r3; r4 = dropWhile is_word_char r3 in
                1 \<le> length name \<and> length name \<le> 15 \<and>
                (end_of_string r4 \<or>
                 (case r4 of [] \<Rightarrow> False | c # r5 \<Rightarrow> c = CHR ''/'' \<and> end_of_string r5)))))"

text \<open>\<open>TG_USERNAME_RE = ^@[A-Za-z0-9_]{5,32}$\<close>.\<close>

definition TG_USERNAME_RE :: "string \<Rightarrow> bool" where
  "TG_USERNAME_RE text =
     (case text of
        [] \<Rightarrow> False
      | c # r \<Rightarrow> c = CHR ''@'' \<and> 5 \<le> length (takeWhile is_word_char r) \<and>
          length (takeWhile is_word_char r) \<le> 32 \<and> end_of_string (dropWhile is_word_char r))"

text \<open>\<open>re.search(pat, t, re.IGNORECASE)\<close> for a literal lower-case pattern.\<close>

fun search_ci :: "string \<Rightarrow> string \<Rightarrow> bool" where
  "search_ci pat [] = (pat = [])"
| "search_ci pat (c # cs) = (take (length pat) (lower (c # cs)) = pat \<or> search_ci pat cs)"

text \<open>
  \<open>re.search(r"\bword\b", t, re.IGNORECASE)\<close> for a lower-case word: an occurrence with no
  word character right before it and none right after it. \<open>prev\<close> tells whether the
  character before the current position is a word character.
\<close>

fun search_word :: "string \<Rightarrow> bool \<Rightarrow> string \<Rightarrow> bool" where
  "search_word w prev [] = False"
| "search_word w prev (c # cs) =
     ((\<not> prev \<and> take (length w) (lower (c # cs)) = w \<and>
       (case drop (length w) (c # cs) of [] \<Rightarrow> True | d # ds \<Rightarrow> \<not> is_word_char d))
      \<or> search_word w (is_word_char c) cs)"

definition validate :: "string \<Rightarrow> string \<Rightarrow> bool \<times> string \<times> string" where
  "validate validator text =
     (if validator = ''x_profile'' then
        (if X_PROFILE_URL_RE text then (True, '''', text)
         else (False, ''Please send your X profile link like https://x.com/username'', text))
      else if validator = ''tg_username'' then
        (if TG_USERNAME_RE text then (True, '''', text)
         else (False, ''Please send your Telegram username starting with @ (e.g., @myname).'', text))
      else if validator = ''recipe_text'' then
        (let t = strip text in
         if length t < 200 then
           (False, ''Please send a longer recipe (min 200 characters). Include Ingredients + Steps.'', t)
         else if search_ci ''http://'' t \<or> search_ci ''https://'' t \<or> search_ci ''www.'' t then
           (False, ''Please do not include links in your recipe.'', t)
         else if \<not> (search_word ''ingredients'' False t \<and>
                    (search_word ''steps'' False t \<or> search_word ''directions'' False t \<or>
                     search_word ''method'' False t)) then
           (False, ''Please include sections: Ingredients + Steps.'', t)
         else (True, '''', t))
      else (True, '''', text))"

subsection \<open>Recipe fingerprints\<close>

text \<open>\<open>re.sub(r"\s+", " ", t)\<close>: every maximal run of whitespace becomes one space.\<close>

function collapse_ws :: "string \<Rightarrow> string" where
  "collapse_ws [] = []"
| "collapse_ws (c # cs) =
     (if is_space c then CHR '' '' # collapse_ws (dropWhile is_space cs) else c # collapse_ws cs)"
  by pat_completeness auto
termination
  by (relation "measure length") (auto simp: le_imp_less_Suc length_dropWhile_le)

definition normalize_recipe_text :: "string \<Rightarrow> string" where
  "normalize_recipe_text text = collapse_ws (lower (strip text))"

text \<open>
  \<open>claim_recipe_fingerprint\<close>. The SHA-256 hex digest of the normalized text is the
  parameter \<open>sha256\<close>. The INSERT fails on PRIMARY KEY (mission_id, fingerprint); the
  IntegrityError is caught and the result is False.
\<close>

definition fingerprint_taken :: "db \<Rightarrow> string \<Rightarrow> string \<Rightarrow> bool" where
  "fingerprint_taken s mission_id fp =
     (\<exists>r \<in> set (recipe_fingerprints s). f_mission_id r = mission_id \<and> f_fingerprint r = fp)"

definition claim_recipe_fingerprint ::
    "(string \<Rightarrow> string) \<Rightarrow> db \<Rightarrow> string \<Rightarrow> int \<Rightarrow> string \<Rightarrow> bool \<times> db" where
  "claim_recipe_fingerprint sha256 s mission_id uid text =
     (let norm = normalize_recipe_text text; fp = sha256 norm in
      if fingerprint_taken s mission_id fp then (False, s)
      else (True, s\<lparr>recipe_fingerprints := recipe_fingerprints s @
              [\<lparr>f_mission_id = mission_id, f_fingerprint = fp, f_user_id = uid\<rparr>]\<rparr>))"

section \<open>Calendar dates and the check-in streak\<close>

text \<open>
  A \<open>datetime.date\<close>. \<open>d - timedelta(days=1)\<close> is the previous calendar day and raises
  OverflowError below \<open>date.min\<close> (0001-01-01).
\<close>

record date =
  d_year :: nat
  d_month :: nat
  d_day :: nat

definition is_leap :: "nat \<Rightarrow> bool" where
  "is_leap y = (y mod 4 = 0 \<and> (y mod 100 \<noteq> 0 \<or> y mod 400 = 0))"

definition days_in_month :: "nat \<Rightarrow> nat \<Rightarrow> nat" where
  "days_in_month y m =
     (if m = 2 then (if is_leap y then 29 else 28)
      else if m = 4 \<or> m = 6 \<or> m = 9 \<or> m = 11 then 30 else 31)"

definition valid_date :: "date \<Rightarrow> bool" where
  "valid_date d = (1 \<le> d_year d \<and> d_year d \<le> 9999 \<and> 1 \<le> d_month d \<and> d_month d \<le> 12 \<and>
     1 \<le> d_day d \<and> d_day d \<le> days_in_month (d_year d) (d_month d))"

definition minus_one_day :: "date \<Rightarrow> error + date" where
  "minus_one_day d =
     (if 1 < d_day d then Inr (d\<lparr>d_day := d_day d - 1\<rparr>)
      else if 1 < d_month d then
        Inr \<lparr>d_year = d_year d, d_month = d_month d - 1,
             d_day = days_in_month (d_year d) (d_month d - 1)\<rparr>
      else if 1 < d_year d then Inr \<lparr>d_year = d_year d - 1, d_month = 12, d_day = 31\<rparr>
      else Inl OverflowError)"

definition digit_char :: "nat \<Rightarrow> char" where
  "digit_char n = char_of (48 + n)"

fun str_nat :: "nat \<Rightarrow> string" where
  "str_nat n = (if n < 10 then [digit_char n] else str_nat (n div 10) @ [digit_char (n mod 10)])"

declare str_nat.simps [simp del]

text \<open>Python's \<open>str\<close> of an int, as an f-string prints it.\<close>

definition str_int :: "int \<Rightarrow> string" where
  "str_int i = (if i < 0 then CHR ''-'' # str_nat (nat (- i)) else str_nat (nat i))"

definition zfill :: "nat \<Rightarrow> string \<Rightarrow> string" where
  "zfill w t = replicate (w - length t) CHR ''0'' @ t"

text \<open>
  \<open>strftime("%Y-%m-%d")\<close>. CPython hands the format to the C library, and glibc prints
  \<open>%Y\<close> as the plain decimal year, without padding: a year below 1000 comes out on fewer than
  four digits. \<open>%m\<close> and \<open>%d\<close> are padded to two digits.
\<close>

definition strftime_ymd :: "date \<Rightarrow> string" where
  "strftime_ymd d = str_nat (d_year d) @ ''-'' @ zfill 2 (str_nat (d_month d)) @ ''-'' @
     zfill 2 (str_nat (d_day d))"

definition digit_val :: "char \<Rightarrow> nat" where
  "digit_val c = of_char c - 48"

definition parse_digits :: "string \<Rightarrow> nat" where
  "parse_digits t = foldl (\<lambda>a c. 10 * a + digit_val c) 0 t"

text \<open>
  \<open>datetime.strptime(ds, "%Y-%m-%d")\<close>. The format compiles to the regular expression
  \<open>(\d\d\d\d)-(1[0-2]|0[1-9]|[1-9])-(3[01]|[12]\d|0[1-9]|[1-9]| [1-9])\<close>; text left over after
  the match and a day that the month does not have are ValueErrors (\<open>None\<close> here).
\<close>

definition match_month :: "string \<Rightarrow> (nat \<times> string) option" where
  "match_month r =
     (if 3 \<le> length r \<and>
         ((r ! 0 = CHR ''1'' \<and> r ! 1 \<in> set ''012'') \<or> (r ! 0 = CHR ''0'' \<and> r ! 1 \<in> set ''123456789''))
         \<and> r ! 2 = CHR ''-''
      then Some (parse_digits (take 2 r), drop 3 r)
      else if 2 \<le> length r \<and> r ! 0 \<in> set ''123456789'' \<and> r ! 1 = CHR ''-''
      then Some (parse_digits (take 1 r), drop 2 r)
      else None)"

definition match_day :: "string \<Rightarrow> (nat \<times> string) option" where
  "match_day r =
     (if 2 \<le> length r \<and>
         ((r ! 0 = CHR ''3'' \<and> r ! 1 \<in> set ''01'') \<or> (r ! 0 \<in> set ''12'' \<and> is_digit (r ! 1)) \<or>
          (r ! 0 = CHR ''0'' \<and> r ! 1 \<in> set ''123456789''))
      then Some (parse_digits (take 2 r), drop 2 r)
      else if 1 \<le> length r \<and> r ! 0 \<in> set ''123456789''
      then Some (parse_digits (take 1 r), drop 1 r)
      else if 2 \<le> length r \<and> r ! 0 = CHR '' '' \<and> r ! 1 \<in> set ''123456789''
      then Some (digit_val (r ! 1), drop 2 r)
      else None)"

definition strptime_ymd :: "string \<Rightarrow> date option" where
  "strptime_ymd ds =
     (if length ds < 5 \<or> \<not> list_all is_digit (take 4 ds) \<or> ds ! 4 \<noteq> CHR ''-'' then None
      else
        (case match_month (drop 5 ds) of
           None \<Rightarrow> None
         | Some (m, r) \<Rightarrow>
             (case match_day r of
                None \<Rightarrow> None
              | Some (dd, rest) \<Rightarrow>
                  (let d = \<lparr>d_year = parse_digits (take 4 ds), d_month = m, d_day = dd\<rparr> in
                   if rest = [] \<and> valid_date d then Some d else None))))"

text \<open>
  SQLite's \<open>unique_key LIKE 'daily_checkin:%'\<close>: case-insensitive on ASCII letters, and the
  \<open>_\<close> of the pattern matches any one character.
\<close>

definition like_daily_checkin :: "string \<Rightarrow> bool" where
  "like_daily_checkin k = (14 \<le> length k \<and> lower (take 5 k) = ''daily'' \<and>
     lower (take 8 (drop 6 k)) = ''checkin:'')"

text \<open>
  \<open>get_checkin_dates\<close>: \<open>uk.split(":", 1)[1]\<close> is what follows the first colon; a key that
  does not parse is skipped (\<open>except Exception: continue\<close>).
\<close>

definition checkin_date_of_key :: "string \<Rightarrow> date option" where
  "checkin_date_of_key uk =
     (case dropWhile (\<lambda>c. c \<noteq> CHR '':'') uk of [] \<Rightarrow> None | c # ds \<Rightarrow> strptime_ymd ds)"

definition get_checkin_dates :: "db \<Rightarrow> int \<Rightarrow> date set" where
  "get_checkin_dates s uid =
     set (List.map_filter (\<lambda>r. checkin_date_of_key (l_unique_key r))
       (filter (\<lambda>r. l_user_id r = uid \<and> l_type r = ''daily_checkin'' \<and>
                  like_daily_checkin (l_unique_key r)) (ledger s)))"

text \<open>The \<open>while d in dates\<close> loop of \<open>compute_streak\<close>.\<close>

function streak_loop :: "date set \<Rightarrow> date \<Rightarrow> nat \<Rightarrow> error + nat" where
  "streak_loop dates d streak =
     (if d \<in> dates then
        (case minus_one_day d of
           Inl e \<Rightarrow> Inl e
         | Inr d' \<Rightarrow> streak_loop dates d' (streak + 1))
      else Inr streak)"
  by pat_completeness auto
termination
  by (relation "inv_image (less_than <*lex*> less_than <*lex*> less_than)
        (\<lambda>(dates, d, streak). (d_year d, d_month d, d_day d))")
     (auto simp: minus_one_day_def split: if_splits)

declare streak_loop.simps [simp del]

definition compute_streak :: "db \<Rightarrow> int \<Rightarrow> date \<Rightarrow> error + nat" where
  "compute_streak s uid today_date = streak_loop (get_checkin_dates s uid) today_date 0"

text \<open>
  The day \<open>n\<close> days before \<open>d\<close>, by \<open>n\<close> steps of \<open>d - timedelta(days=1)\<close>; \<open>None\<close> when a
  step leaves the range of \<open>date\<close>.
\<close>

fun days_before :: "nat \<Rightarrow> date \<Rightarrow> date option" where
  "days_before 0 d = Some d"
| "days_before (Suc n) d = (case minus_one_day d of Inl e \<Rightarrow> None | Inr d' \<Rightarrow> days_before n d')"

section \<open>Campaign configuration\<close>

text \<open>
  The values bot.py reads from config.json at start-up, already converted as the module
  does it (\<open>int(...)\<close>, \<open>MENU.get(key, default)\<close>). A streak rule is (days, points).
  \<open>m_validator\<close> is \<open>None\<close> when the mission has no \<open>validator\<close> entry.
\<close>

record mission =
  m_id :: string
  m_points :: int
  m_delay_minutes :: int
  m_validator :: "string option"

record config =
  POINT_WALLET_REGISTER :: int
  POINT_REFERRAL_QUALIFIED :: int
  POINT_DAILY_CHECKIN :: int
  STREAK_BONUSES :: "(int \<times> int) list"
  MISSIONS :: "mission list"
  MENU_terms :: string
  MENU_bonus :: string
  MENU_connect_wallet :: string
  MENU_balance :: string
  MENU_chat :: string

definition get_mission :: "config \<Rightarrow> string \<Rightarrow> mission option" where
  "get_mission cfg mission_id = find (\<lambda>m. m_id m = mission_id) (MISSIONS cfg)"

text \<open>\<open>m.get("validator", "")\<close>.\<close>

definition mission_validator :: "mission \<Rightarrow> string" where
  "mission_validator m = (case m_validator m of None \<Rightarrow> '''' | Some v \<Rightarrow> v)"

section \<open>Delayed rewards\<close>

definition pending_has :: "db \<Rightarrow> int \<Rightarrow> string \<Rightarrow> bool" where
  "pending_has s uid mission_id =
     (\<exists>p \<in> set (pending_rewards s). p_user_id p = uid \<and> p_mission_id p = mission_id)"

text \<open>
  \<open>add_pending_reward\<close>: \<open>now\<close> is \<open>int(time.time())\<close>; the INSERT fails on
  PRIMARY KEY (user_id, mission_id) and the result is then (False, available_at_ts).
\<close>

definition add_pending_reward ::
    "db \<Rightarrow> int \<Rightarrow> int \<Rightarrow> string \<Rightarrow> string \<Rightarrow> int \<Rightarrow> int \<Rightarrow> (bool \<times> int) \<times> db" where
  "add_pending_reward s now uid mission_id key amt delay_minutes =
     (let available_at_ts = now + delay_minutes * 60 in
      if pending_has s uid mission_id then ((False, available_at_ts), s)
      else ((True, available_at_ts), s\<lparr>pending_rewards := pending_rewards s @
              [\<lparr>p_user_id = uid, p_mission_id = mission_id, p_unique_key = key, p_amount = amt,
                p_available_at_ts = available_at_ts\<rparr>]\<rparr>))"

definition delete_pending :: "db \<Rightarrow> int \<Rightarrow> string \<Rightarrow> db" where
  "delete_pending s uid mission_id =
     s\<lparr>pending_rewards := filter (\<lambda>p. \<not> (p_user_id p = uid \<and> p_mission_id p = mission_id))
          (pending_rewards s)\<rparr>"

text \<open>
  The \<open>for r in rows\<close> loop of \<open>process_due_rewards\<close>: credit with the stored key, delete
  the pending row whatever the credit returned, and report the mission when it was credited.
\<close>

fun settle_rows :: "db \<Rightarrow> int \<Rightarrow> pending_row list \<Rightarrow> (string \<times> int) list \<Rightarrow> (string \<times> int) list \<times> db" where
  "settle_rows s uid [] credited = (credited, s)"
| "settle_rows s uid (r # rows) credited =
     (let (ok, s1) = add_points_once s uid (p_unique_key r) (''mission:'' @ p_mission_id r)
                       (p_amount r) [(''delayed'', JBool True)];
          s2 = delete_pending s1 uid (p_mission_id r)
      in settle_rows s2 uid rows (if ok then credited @ [(p_mission_id r, p_amount r)] else credited))"

definition due_rows :: "db \<Rightarrow> int \<Rightarrow> int \<Rightarrow> pending_row list" where
  "due_rows s now uid =
     filter (\<lambda>p. p_user_id p = uid \<and> p_available_at_ts p \<le> now) (pending_rewards s)"

definition process_due_rewards :: "db \<Rightarrow> int \<Rightarrow> int \<Rightarrow> (string \<times> int) list \<times> db" where
  "process_due_rewards s now uid = settle_rows s uid (due_rows s now uid) []"

section \<open>Handlers\<close>

text \<open>
  What a handler sends back, one constructor per message of bot.py; the wording and the
  keyboards are presentation.
\<close>

datatype reply =
    DelayedRewardsCredited int
  | ConnectWalletFirst
  | AlreadyCheckedIn nat
  | CheckinComplete nat "(int \<times> int) list"
  | InviteFriend "string option"
  | MissionNotFound
  | MissionPrompt string
  | WalletChangeLimited
  | EnterNewWallet
  | WalletAlreadyRegistered
  | NoPendingWallet
  | WalletOwnedByAnotherUser
  | WalletAlreadyRegisteredIndex
  | WalletRegistered string
  | EnterWalletAgain
  | NoExistingWallet
  | SameWallet
  | WalletUpdated string string
  | EnterNewWalletAgain
  | TermsText
  | BonusMenu
  | ConnectWalletInfo string
  | ConnectWalletPrompt
  | BalanceInfo int nat nat
  | ChatIntro
  | AiAnswer string
  | WalletIncorrect
  | ConfirmWallet string
  | ConfirmNewWallet string
  | MissionNotConfigured
  | ValidationFailed string
  | RecipeAlreadySubmitted
  | SavedDelayed int
  | SavedAlreadyScheduled
  | SavedPoints int
  | SavedAlreadyGranted
  | UseMenu

text \<open>
  A handler run ends by returning (\<open>Replied\<close>) or with an uncaught exception (\<open>Raised\<close>);
  both carry the messages sent so far, and the store keeps what was committed.
\<close>

datatype outcome = Replied "reply list" | Raised error "reply list"

type_synonym result = "outcome \<times> db"

definition prepend :: "reply list \<Rightarrow> result \<Rightarrow> result" where
  "prepend pre res =
     (case res of
        (Replied rs, s) \<Rightarrow> (Replied (pre @ rs), s)
      | (Raised e rs, s) \<Rightarrow> (Raised e (pre @ rs), s))"

text \<open>
  The prelude shared by \<open>on_callback\<close> and \<open>on_any_text\<close>: the message announcing the
  delayed rewards that \<open>process_due_rewards\<close> has just credited.
\<close>

definition newly_credited :: "(string \<times> int) list \<Rightarrow> reply list" where
  "newly_credited newly = (if newly = [] then [] else [DelayedRewardsCredited (sum_list (map snd newly))])"

subsection \<open>Button callbacks\<close>

text \<open>The \<open>for rule in STREAK_BONUSES\<close> loop of the daily check-in.\<close>

fun grant_streak_bonuses ::
    "db \<Rightarrow> int \<Rightarrow> nat \<Rightarrow> string \<Rightarrow> (int \<times> int) list \<Rightarrow> (int \<times> int) list \<Rightarrow> (int \<times> int) list \<times> db" where
  "grant_streak_bonuses s uid streak today_str [] bonus_lines = (bonus_lines, s)"
| "grant_streak_bonuses s uid streak today_str ((days, points) # rules) bonus_lines =
     (if int streak = days then
        (let (ok, s1) = add_points_once s uid (''streak_bonus:'' @ str_int days @ '':'' @ today_str)
                          ''streak_bonus'' points [(''days'', JInt days), (''date'', JStr today_str)]
         in grant_streak_bonuses s1 uid streak today_str rules
              (if ok then bonus_lines @ [(days, points)] else bonus_lines))
      else grant_streak_bonuses s uid streak today_str rules bonus_lines)"

text \<open>
  \<open>data == "daily_checkin"\<close>. \<open>user_row\<close> is the row read at the top of \<open>on_callback\<close>;
  \<open>today_date\<close> is \<open>datetime.now(TZ).date()\<close>.
\<close>

definition cb_daily_checkin :: "config \<Rightarrow> db \<Rightarrow> date \<Rightarrow> int \<Rightarrow> user_row option \<Rightarrow> result" where
  "cb_daily_checkin cfg s today_date uid user_row =
     (case user_row of
        None \<Rightarrow> (Raised TypeError [], s)
      | Some row \<Rightarrow>
          if \<not> truthy (u_wallet_address row) then (Replied [ConnectWalletFirst], s)
          else
            (let today_str = strftime_ymd today_date;
                 unique_key = ''daily_checkin:'' @ today_str;
                 (awarded, s1) = add_points_once s uid unique_key ''daily_checkin''
                                   (POINT_DAILY_CHECKIN cfg) [(''date'', JStr today_str)]
             in case compute_streak s1 uid today_date of
                  Inl e \<Rightarrow> (Raised e [], s1)
                | Inr streak \<Rightarrow>
                    if \<not> awarded then (Replied [AlreadyCheckedIn streak], s1)
                    else
                      (let (bonus_lines, s2) =
                             grant_streak_bonuses s1 uid streak today_str (STREAK_BONUSES cfg) []
                       in (Replied [CheckinComplete streak bonus_lines], s2))))"

definition cb_invite_friend :: "db \<Rightarrow> user_row option \<Rightarrow> result" where
  "cb_invite_friend s user_row =
     (case user_row of
        None \<Rightarrow> (Raised TypeError [], s)
      | Some row \<Rightarrow>
          if \<not> truthy (u_wallet_address row) then (Replied [ConnectWalletFirst], s)
          else (Replied [InviteFriend (u_ref_code row)], s))"

text \<open>\<open>data.startswith("mission:")\<close>; \<open>mission_id\<close> is \<open>data.split(":", 1)[1]\<close>.\<close>

definition cb_mission :: "config \<Rightarrow> db \<Rightarrow> int \<Rightarrow> user_row option \<Rightarrow> string \<Rightarrow> result" where
  "cb_mission cfg s uid user_row mission_id =
     (case user_row of
        None \<Rightarrow> (Raised TypeError [], s)
      | Some row \<Rightarrow>
          if \<not> truthy (u_wallet_address row) then (Replied [ConnectWalletFirst], s)
          else
            (case get_mission cfg mission_id of
               None \<Rightarrow> (Replied [MissionNotFound], s)
             | Some m \<Rightarrow>
                 (Replied [MissionPrompt mission_id],
                  set_state s uid (Some (''MISSION:'' @ mission_id)))))"

definition cb_wallet_change :: "db \<Rightarrow> int \<Rightarrow> user_row option \<Rightarrow> result" where
  "cb_wallet_change s uid user_row =
     (case user_row of
        None \<Rightarrow> (Raised TypeError [], s)
      | Some row \<Rightarrow>
          if \<not> truthy (u_wallet_address row) then (Replied [ConnectWalletFirst], s)
          else if 1 \<le> (case u_wallet_change_count row of None \<Rightarrow> 0 | Some c \<Rightarrow> c)
          then (Replied [WalletChangeLimited], s)
          else (Replied [EnterNewWallet],
                update_user s uid (\<lambda>r. r\<lparr>u_state := Some ''AWAIT_WALLET_CHANGE'',
                                          u_wallet_pending := None\<rparr>)))"

text \<open>
  \<open>SELECT user_id FROM users WHERE wallet_address = ? AND user_id != ?\<close> finds a row; the
  unique index \<open>idx_unique_wallet_address\<close> rejects an UPDATE under the same condition.
\<close>

definition wallet_taken :: "db \<Rightarrow> int \<Rightarrow> string \<Rightarrow> bool" where
  "wallet_taken s uid w = (\<exists>r \<in> set (users s). u_wallet_address r = Some w \<and> u_user_id r \<noteq> uid)"

text \<open>\<open>if referred_by:\<close> holds for an id that is neither NULL nor 0.\<close>

definition credit_referrer :: "config \<Rightarrow> db \<Rightarrow> int \<Rightarrow> int option \<Rightarrow> db" where
  "credit_referrer cfg s uid referred_by =
     (case referred_by of
        None \<Rightarrow> s
      | Some referrer \<Rightarrow>
          if referrer = 0 then s
          else snd (add_points_once s referrer (''referral:'' @ str_int uid)
                      ''referral_wallet_connected'' (POINT_REFERRAL_QUALIFIED cfg)
                      [(''referred_user_id'', JInt uid)]))"

definition cb_wallet_confirm :: "config \<Rightarrow> db \<Rightarrow> int \<Rightarrow> result" where
  "cb_wallet_confirm cfg s uid =
     (case get_user s uid of
        None \<Rightarrow> (Replied [], s)
      | Some dbrow \<Rightarrow>
          if truthy (u_wallet_address dbrow) then (Replied [WalletAlreadyRegistered], s)
          else
            (case u_wallet_pending dbrow of
               None \<Rightarrow> (Replied [NoPendingWallet], s)
             | Some pending \<Rightarrow>
                 if pending = [] then (Replied [NoPendingWallet], s)
                 else if wallet_taken s uid pending then (Replied [WalletOwnedByAnotherUser], s)
                 else if wallet_taken s uid pending then (Replied [WalletAlreadyRegisteredIndex], s)
                 else
                   (let s1 = update_user s uid (\<lambda>r. r\<lparr>u_wallet_address := Some pending,
                                u_wallet_pending := None, u_state := None\<rparr>);
                        s2 = snd (add_points_once s1 uid ''wallet_register'' ''wallet_register''
                                    (POINT_WALLET_REGISTER cfg) []);
                        s3 = credit_referrer cfg s2 uid (u_referred_by dbrow)
                    in (Replied [WalletRegistered pending], s3))))"

definition cb_wallet_retry :: "db \<Rightarrow> int \<Rightarrow> result" where
  "cb_wallet_retry s uid =
     (Replied [EnterWalletAgain],
      update_user s uid (\<lambda>r. r\<lparr>u_wallet_pending := None, u_state := Some ''AWAIT_WALLET''\<rparr>))"

text \<open>
  \<open>data == "wallet_change_confirm"\<close>. The UPDATE is not guarded by \<open>try\<close>: a violation of the
  unique index would leave the handler as an IntegrityError.
\<close>

definition cb_wallet_change_confirm :: "db \<Rightarrow> int \<Rightarrow> result" where
  "cb_wallet_change_confirm s uid =
     (case get_user s uid of
        None \<Rightarrow> (Replied [], s)
      | Some dbrow \<Rightarrow>
          (case u_wallet_address dbrow of
             None \<Rightarrow> (Replied [NoExistingWallet], s)
           | Some old_wallet \<Rightarrow>
               if old_wallet = [] then (Replied [NoExistingWallet], s)
               else
                 (case u_wallet_pending dbrow of
                    None \<Rightarrow> (Replied [NoPendingWallet], s)
                  | Some pending \<Rightarrow>
                      if pending = [] then (Replied [NoPendingWallet], s)
                      else if pending = old_wallet then (Replied [SameWallet], s)
                      else if wallet_taken s uid pending then (Replied [WalletOwnedByAnotherUser], s)
                      else if wallet_taken s uid pending then (Raised IntegrityError [], s)
                      else
                        (Replied [WalletUpdated old_wallet pending],
                         update_user s uid (\<lambda>r. r\<lparr>u_wallet_address := Some pending,
                            u_wallet_pending := None, u_state := None,
                            u_wallet_change_count :=
                              Some ((case u_wallet_change_count r of None \<Rightarrow> 0 | Some c \<Rightarrow> c) + 1)\<rparr>)))))"

definition cb_wallet_change_retry :: "db \<Rightarrow> int \<Rightarrow> result" where
  "cb_wallet_change_retry s uid =
     (Replied [EnterNewWalletAgain],
      update_user s uid (\<lambda>r. r\<lparr>u_wallet_pending := None, u_state := Some ''AWAIT_WALLET_CHANGE''\<rparr>))"

text \<open>
  \<open>on_callback\<close>. \<open>now\<close> is \<open>int(time.time())\<close> as \<open>process_due_rewards\<close> reads it, \<open>tok\<close> the
  random token \<open>ensure_user\<close> would use, \<open>data\<close> the callback data (\<open>q.data or ""\<close>).
\<close>

definition on_callback ::
    "config \<Rightarrow> db \<Rightarrow> int \<Rightarrow> date \<Rightarrow> string \<Rightarrow> int \<Rightarrow> string option \<Rightarrow> string \<Rightarrow> result" where
  "on_callback cfg s now today_date tok uid uname data =
     (case ensure_user s uid uname tok of
        Inl e \<Rightarrow> (Raised e [], s)
      | Inr s0 \<Rightarrow>
          (let user_row = get_user s0 uid;
               (newly, s1) = process_due_rewards s0 now uid
           in prepend (newly_credited newly)
                (if data = ''daily_checkin'' then cb_daily_checkin cfg s1 today_date uid user_row
                 else if data = ''invite_friend'' then cb_invite_friend s1 user_row
                 else if take 8 data = ''mission:'' then cb_mission cfg s1 uid user_row (drop 8 data)
                 else if data = ''wallet_change'' then cb_wallet_change s1 uid user_row
                 else if data = ''wallet_confirm'' then cb_wallet_confirm cfg s1 uid
                 else if data = ''wallet_retry'' then cb_wallet_retry s1 uid
                 else if data = ''wallet_change_confirm'' then cb_wallet_change_confirm s1 uid
                 else if data = ''wallet_change_retry'' then cb_wallet_change_retry s1 uid
                 else (Replied [], s1))))"

subsection \<open>Text messages\<close>

definition get_referral_counts :: "db \<Rightarrow> int \<Rightarrow> nat \<times> nat" where
  "get_referral_counts s referrer_id =
     (length (filter (\<lambda>r. u_referred_by r = Some referrer_id) (users s)),
      length (filter (\<lambda>r. u_referred_by r = Some referrer_id \<and> u_wallet_address r \<noteq> None) (users s)))"

text \<open>The menu handlers. Each starts with \<open>ensure_user\<close>; \<open>terms\<close> touches nothing.\<close>

definition bonus :: "db \<Rightarrow> string \<Rightarrow> int \<Rightarrow> string option \<Rightarrow> result" where
  "bonus s tok uid uname =
     (case ensure_user s uid uname tok of
        Inl e \<Rightarrow> (Raised e [], s)
      | Inr s0 \<Rightarrow> if \<not> has_wallet s0 uid then (Replied [ConnectWalletFirst], s0)
                 else (Replied [BonusMenu], s0))"

definition connect_wallet :: "db \<Rightarrow> string \<Rightarrow> int \<Rightarrow> string option \<Rightarrow> result" where
  "connect_wallet s tok uid uname =
     (case ensure_user s uid uname tok of
        Inl e \<Rightarrow> (Raised e [], s)
      | Inr s0 \<Rightarrow>
          (case get_user s0 uid of
             None \<Rightarrow> (Raised TypeError [], s0)
           | Some row \<Rightarrow>
               if truthy (u_wallet_address row)
               then (Replied [ConnectWalletInfo (case u_wallet_address row of None \<Rightarrow> [] | Some w \<Rightarrow> w)], s0)
               else (Replied [ConnectWalletPrompt], set_state s0 uid (Some ''AWAIT_WALLET''))))"

definition balance :: "db \<Rightarrow> string \<Rightarrow> int \<Rightarrow> string option \<Rightarrow> result" where
  "balance s tok uid uname =
     (case ensure_user s uid uname tok of
        Inl e \<Rightarrow> (Raised e [], s)
      | Inr s0 \<Rightarrow>
          if \<not> has_wallet s0 uid then (Replied [ConnectWalletFirst], s0)
          else (Replied [BalanceInfo (get_points s0 uid) (fst (get_referral_counts s0 uid))
                           (snd (get_referral_counts s0 uid))], s0))"

definition ai_chat_start :: "db \<Rightarrow> string \<Rightarrow> int \<Rightarrow> string option \<Rightarrow> result" where
  "ai_chat_start s tok uid uname =
     (case ensure_user s uid uname tok of
        Inl e \<Rightarrow> (Raised e [], s)
      | Inr s0 \<Rightarrow> (Replied [ChatIntro], set_state s0 uid (Some ''AI_CHAT'')))"

text \<open>
  The built-in menu labels that carry an emoji, as UTF-8: \<open>U+1F4C4 Terms\<close>,
  \<open>U+1F4B0 Bonus\<close>, \<open>U+1F98A Connect Wallet\<close>, \<open>U+1F3C6 Balance\<close>.
\<close>

definition label_terms :: string where
  "label_terms = [CHR 0xF0, CHR 0x9F, CHR 0x93, CHR 0x84] @ '' Terms''"

definition label_bonus :: string where
  "label_bonus = [CHR 0xF0, CHR 0x9F, CHR 0x92, CHR 0xB0] @ '' Bonus''"

definition label_connect_wallet :: string where
  "label_connect_wallet = [CHR 0xF0, CHR 0x9F, CHR 0xA6, CHR 0x8A] @ '' Connect Wallet''"

definition label_balance :: string where
  "label_balance = [CHR 0xF0, CHR 0x9F, CHR 0x8F, CHR 0x86] @ '' Balance''"

text \<open>\<open>INSERT INTO submissions\<close>, with the IntegrityError of a second submission passed over.\<close>

definition record_submission :: "db \<Rightarrow> int \<Rightarrow> string \<Rightarrow> string \<Rightarrow> db" where
  "record_submission s uid mission_id payload =
     (if \<exists>r \<in> set (submissions s). s_user_id r = uid \<and> s_mission_id r = mission_id then s
      else s\<lparr>submissions := submissions s @
             [\<lparr>s_user_id = uid, s_mission_id = mission_id, s_payload = payload\<rparr>]\<rparr>)"

text \<open>
  The \<open>state.startswith("MISSION:")\<close> branch of \<open>on_any_text\<close>. \<open>now\<close> is the clock read by
  \<open>add_pending_reward\<close>, \<open>sha256\<close> the digest used by \<open>claim_recipe_fingerprint\<close>.
\<close>

definition msg_mission ::
    "config \<Rightarrow> (string \<Rightarrow> string) \<Rightarrow> db \<Rightarrow> int \<Rightarrow> int \<Rightarrow> string \<Rightarrow> string \<Rightarrow> result" where
  "msg_mission cfg sha256 s now uid mission_id text =
     (case get_mission cfg mission_id of
        None \<Rightarrow> (Replied [MissionNotConfigured], set_state s uid None)
      | Some m \<Rightarrow>
          (case validate (mission_validator m) text of
             (ok, err, normalized) \<Rightarrow>
               if \<not> ok then (Replied [ValidationFailed err], s)
               else
                 (let (claimed, s1) =
                        (if mission_id = ''recipe_submit''
                         then claim_recipe_fingerprint sha256 s mission_id uid normalized
                         else (True, s))
                  in if \<not> claimed then (Replied [RecipeAlreadySubmitted], s1)
                     else
                       (let s2 = record_submission s1 uid mission_id normalized;
                            points = m_points m;
                            delay_minutes = m_delay_minutes m
                        in if 0 < delay_minutes then
                             (let ((ok2, ts), s3) = add_pending_reward s2 now uid mission_id
                                      (''mission:'' @ mission_id) points delay_minutes;
                                  s4 = set_state s3 uid None
                              in if ok2 then (Replied [SavedDelayed delay_minutes], s4)
                                 else (Replied [SavedAlreadyScheduled], s4))
                           else
                             (let (awarded, s3) = add_points_once s2 uid (''mission:'' @ mission_id)
                                      (''mission:'' @ mission_id) points [(''payload'', JStr normalized)];
                                  s4 = set_state s3 uid None
                              in if awarded then (Replied [SavedPoints points], s4)
                                 else (Replied [SavedAlreadyGranted], s4))))))"

definition stage_wallet :: "db \<Rightarrow> int \<Rightarrow> string \<Rightarrow> db" where
  "stage_wallet s uid text = update_user s uid (\<lambda>r. r\<lparr>u_wallet_pending := Some text\<rparr>)"

text \<open>The menu routing at the top of \<open>on_any_text\<close>, in the order of its tests.\<close>

datatype menu = Terms | Bonus | ConnectWallet | Balance | Chat

definition menu_of :: "config \<Rightarrow> string \<Rightarrow> menu option" where
  "menu_of cfg text =
     (if text = MENU_terms cfg \<or> text = ''Terms'' \<or> text = label_terms then Some Terms
      else if text = MENU_bonus cfg \<or> text = ''Bonus'' \<or> text = label_bonus then Some Bonus
      else if text = MENU_connect_wallet cfg \<or> text = ''Connect Wallet'' \<or> text = label_connect_wallet
      then Some ConnectWallet
      else if text = MENU_balance cfg \<or> text = ''Balance'' \<or> text = label_balance then Some Balance
      else if text = MENU_chat cfg then Some Chat
      else None)"

text \<open>The dispatch of \<open>on_any_text\<close> on the conversation state read at its top.\<close>

definition msg_by_state ::
    "config \<Rightarrow> (string \<Rightarrow> string) \<Rightarrow> db \<Rightarrow> int \<Rightarrow> string \<Rightarrow> int \<Rightarrow> user_row option \<Rightarrow> string \<Rightarrow> result" where
  "msg_by_state cfg sha256 s now answer uid row text =
     (case row of
        None \<Rightarrow> (Raised TypeError [], s)
      | Some r \<Rightarrow>
          (let state = strip (case u_state r of None \<Rightarrow> [] | Some st \<Rightarrow> st) in
           if state = ''AI_CHAT'' then (Replied [AiAnswer answer], s)
           else if state = ''AWAIT_WALLET'' then
             (if \<not> WALLET_RE text then (Replied [WalletIncorrect], s)
              else (Replied [ConfirmWallet text], stage_wallet s uid text))
           else if state = ''AWAIT_WALLET_CHANGE'' then
             (if \<not> WALLET_RE text then (Replied [WalletIncorrect], s)
              else (Replied [ConfirmNewWallet text], stage_wallet s uid text))
           else if take 8 state = ''MISSION:''
           then msg_mission cfg sha256 s now uid (drop 8 state) text
           else (Replied [UseMenu], s)))"

text \<open>
  \<open>on_any_text\<close>. \<open>now\<close> is the clock read by \<open>process_due_rewards\<close>, \<open>now2\<close> the one read
  later by \<open>add_pending_reward\<close>; \<open>msg_text\<close> is \<open>update.message.text or ""\<close>; \<open>answer\<close> is
  what \<open>call_recipe_ai\<close> returns.
\<close>

definition on_any_text ::
    "config \<Rightarrow> (string \<Rightarrow> string) \<Rightarrow> db \<Rightarrow> int \<Rightarrow> int \<Rightarrow> string \<Rightarrow> string \<Rightarrow> int \<Rightarrow> string option \<Rightarrow>
       string \<Rightarrow> result" where
  "on_any_text cfg sha256 s now now2 tok answer uid uname msg_text =
     (case ensure_user s uid uname tok of
        Inl e \<Rightarrow> (Raised e [], s)
      | Inr s0 \<Rightarrow>
          (let row = get_user s0 uid;
               (newly, s1) = process_due_rewards s0 now uid;
               text = strip msg_text
           in prepend (newly_credited newly)
                (case menu_of cfg text of
                   Some Terms \<Rightarrow> (Replied [TermsText], s1)
                 | Some Bonus \<Rightarrow> bonus s1 tok uid uname
                 | Some ConnectWallet \<Rightarrow> connect_wallet s1 tok uid uname
                 | Some Balance \<Rightarrow> balance s1 tok uid uname
                 | Some Chat \<Rightarrow> ai_chat_start s1 tok uid uname
                 | None \<Rightarrow> msg_by_state cfg sha256 s1 now2 answer uid row text)))"

section \<open>Scenario data\<close>

text \<open>
  A small campaign and a few rows, used to run the handlers on concrete inputs: a streak
  bonus of 50 at 3 days, a mission \<open>X\<close> of 20 points credited after 30 minutes, the recipe
  mission, and two wallet addresses.
\<close>

definition scenario_config :: config where
  "scenario_config =
     \<lparr>POINT_WALLET_REGISTER = 50, POINT_REFERRAL_QUALIFIED = 100, POINT_DAILY_CHECKIN = 10,
      STREAK_BONUSES = [(3, 50)],
      MISSIONS = [\<lparr>m_id = ''X'', m_points = 20, m_delay_minutes = 30, m_validator = None\<rparr>,
                  \<lparr>m_id = ''recipe_submit'', m_points = 30, m_delay_minutes = 0, m_validator = None\<rparr>],
      MENU_terms = ''Terms'', MENU_bonus = ''Bonus'', MENU_connect_wallet = ''Connect Wallet'',
      MENU_balance = ''Balance'', MENU_chat = ''Chat''\<rparr>"

definition scenario_user :: "int \<Rightarrow> string option \<Rightarrow> string option \<Rightarrow> string option \<Rightarrow> user_row" where
  "scenario_user uid wallet pending st =
     \<lparr>u_user_id = uid, u_username = None, u_ref_code = None, u_referred_by = None,
      u_wallet_address = wallet, u_wallet_pending = pending, u_wallet_change_count = Some 0,
      u_state = st\<rparr>"

definition wallet_A :: string where
  "wallet_A = ''0xAAAAAAAAAAAAAAAAAAAAAAAAAAAAAAAAAAAAAAAA''"

definition wallet_B :: string where
  "wallet_B = ''0xBBBBBBBBBBBBBBBBBBBBBBBBBBBBBBBBBBBBBBBB''"

definition scenario_day :: date where
  "scenario_day = \<lparr>d_year = 2024, d_month = 1, d_day = 3\<rparr>"

section \<open>Ledger properties\<close>

lemma ledger_has_rows: "ledger_has s uid key \<longleftrightarrow> ledger_rows s uid key \<noteq> []"
  by (auto simp: ledger_has_def ledger_rows_def filter_empty_conv)

lemma add_points_once_fst: "fst (add_points_once s uid key typ amt m) = (\<not> ledger_has s uid key)"
  by (simp add: add_points_once_def)

lemma add_points_once_has:
  "ledger_has (snd (add_points_once s uid key typ amt m)) v k \<longleftrightarrow>
     ledger_has s v k \<or> (v = uid \<and> k = key)"
  by (auto simp: add_points_once_def ledger_has_def)

lemma add_points_once_points:
  "get_points (snd (add_points_once s uid key typ amt m)) v =
     get_points s v + (if fst (add_points_once s uid key typ amt m) \<and> v = uid then amt else 0)"
  by (simp add: add_points_once_def get_points_def)

lemma add_points_once_dup:
  "ledger_has s uid key \<Longrightarrow> add_points_once s uid key typ amt m = (False, s)"
  by (simp add: add_points_once_def)

lemma add_points_once_new:
  "\<not> ledger_has s uid key \<Longrightarrow> add_points_once s uid key typ amt m =
     (True, s\<lparr>ledger := ledger s @
        [\<lparr>l_user_id = uid, l_unique_key = key, l_type = typ, l_amount = amt, l_meta = m\<rparr>]\<rparr>)"
  by (simp add: add_points_once_def)

lemma add_points_once_again:
  "add_points_once (snd (add_points_once s uid key typ amt m)) uid key typ' amt' m' =
     (False, snd (add_points_once s uid key typ amt m))"
  by (rule add_points_once_dup) (simp add: add_points_once_has)

lemma add_points_once_rows:
  "\<not> ledger_has s uid key \<Longrightarrow>
     length (ledger_rows (snd (add_points_once s uid key typ amt m)) uid key) = 1"
  by (auto simp: add_points_once_def ledger_has_def ledger_rows_def filter_empty_conv)



section \<open>Validators and fingerprints\<close>

lemma is_space_lower_char: "is_space (lower_char c) = is_space c"
proof (cases "65 \<le> (of_char c :: nat) \<and> (of_char c :: nat) \<le> 90")
  case False
  then have "lower_char c = c" by (auto simp: lower_char_def Let_def)
  then show ?thesis by simp
next
  case True
  then have a: "lower_char c = char_of (of_char c + 32 :: nat)"
    by (simp add: lower_char_def Let_def)
  have b: "(of_char (char_of (of_char c + 32 :: nat)) :: nat) = of_char c + 32"
    using True by (simp add: of_char_of)
  have "\<not> is_space c"
    using True by (auto simp: is_space_def Let_def)
  moreover have "\<not> is_space (char_of (of_char c + 32 :: nat))"
    using True by (auto simp: is_space_def Let_def b)
  ultimately show ?thesis using a by simp
qed

lemma dropWhile_space_lower: "dropWhile is_space (lower t) = lower (dropWhile is_space t)"
  by (induction t) (simp_all add: lower_def is_space_lower_char)

lemma rev_lower: "rev (lower t) = lower (rev t)"
  by (simp add: lower_def rev_map)

lemma strip_lower: "strip (lower t) = lower (strip t)"
  by (simp add: strip_def dropWhile_space_lower rev_lower)

lemma normalize_case:
  "lower t1 = lower t2 \<Longrightarrow> normalize_recipe_text t1 = normalize_recipe_text t2"
  by (simp add: normalize_recipe_text_def strip_lower [symmetric])

lemma dropWhile_spaces: "\<forall>c \<in> set ws. is_space c \<Longrightarrow> dropWhile is_space (ws @ t) = dropWhile is_space t"
  by (induction ws) simp_all

lemma strip_outer:
  assumes "\<forall>c \<in> set ws. is_space c" "\<forall>c \<in> set ws'. is_space c"
  shows "strip (ws @ t @ ws') = strip t"
proof -
  have "rev (dropWhile is_space (ws @ t @ ws')) = rev ws' @ rev (dropWhile is_space t)"
    if "\<not> (\<forall>c \<in> set t. is_space c)"
    using that assms(1) by (auto simp: dropWhile_spaces dropWhile_append1)
  moreover have "\<forall>c \<in> set (rev ws'). is_space c" using assms(2) by simp
  ultimately have a: "strip (ws @ t @ ws') = strip t" if "\<not> (\<forall>c \<in> set t. is_space c)"
    using that by (simp add: strip_def dropWhile_spaces)
  have b: "strip (ws @ t @ ws') = strip t" if all: "\<forall>c \<in> set t. is_space c"
  proof -
    have "\<forall>c \<in> set (ws @ t @ ws'). is_space c" using all assms by auto
    then have e1: "dropWhile is_space (ws @ t @ ws') = []" by (simp add: dropWhile_eq_Nil_conv)
    have e2: "dropWhile is_space t = []" using all by (simp add: dropWhile_eq_Nil_conv)
    show ?thesis by (simp only: strip_def e1 e2)
  qed
  from a b show ?thesis by blast
qed

lemma collapse_ws_run:
  assumes "ws \<noteq> []" "\<forall>c \<in> set ws. is_space c"
  shows "collapse_ws (a @ ws @ b) = collapse_ws (a @ CHR '' '' # b)"
  using assms
proof (induction a rule: length_induct)
  case (1 a)
  have sp: "is_space CHR '' ''" by (simp add: is_space_def Let_def)
  have base: "collapse_ws (ws @ b) = collapse_ws (CHR '' '' # b)"
  proof -
    obtain c ws0 where ws: "ws = c # ws0" using 1(2) by (cases ws) auto
    then have "is_space c" "\<forall>c \<in> set ws0. is_space c" using 1(3) by auto
    then show ?thesis using ws sp by (simp add: dropWhile_spaces)
  qed
  show ?case
  proof (cases a)
    case Nil
    then show ?thesis using base by simp
  next
    case (Cons x xs)
    show ?thesis
    proof (cases "is_space x")
      case False
      have "length xs < length a" using Cons by simp
      with 1 have "collapse_ws (xs @ ws @ b) = collapse_ws (xs @ CHR '' '' # b)" by blast
      then show ?thesis using Cons False by simp
    next
      case True
      show ?thesis
      proof (cases "\<forall>c \<in> set xs. is_space c")
        case all: True
        have "dropWhile is_space (xs @ ws @ b) = dropWhile is_space b"
          using all 1(3) by (simp add: dropWhile_spaces)
        moreover have "dropWhile is_space (xs @ CHR '' '' # b) = dropWhile is_space b"
          using all sp by (simp add: dropWhile_spaces)
        ultimately show ?thesis using Cons True by simp
      next
        case notall: False
        let ?ys = "dropWhile is_space xs"
        have d1: "dropWhile is_space (xs @ ws @ b) = ?ys @ ws @ b"
          using notall by (auto simp: dropWhile_append1)
        have d2: "dropWhile is_space (xs @ CHR '' '' # b) = ?ys @ CHR '' '' # b"
          using notall by (auto simp: dropWhile_append1)
        have "length ?ys < length a" using Cons by (simp add: le_imp_less_Suc length_dropWhile_le)
        with 1 have "collapse_ws (?ys @ ws @ b) = collapse_ws (?ys @ CHR '' '' # b)" by blast
        then show ?thesis using Cons True d1 d2 by simp
      qed
    qed
  qed
qed

lemma claim_fst:
  "fst (claim_recipe_fingerprint sha256 s mission_id uid msg) =
     (\<not> fingerprint_taken s mission_id (sha256 (normalize_recipe_text msg)))"
  by (simp add: claim_recipe_fingerprint_def Let_def)

lemma claim_taken:
  "fingerprint_taken (snd (claim_recipe_fingerprint sha256 s mission_id uid msg)) m fp \<longleftrightarrow>
     fingerprint_taken s m fp \<or> (m = mission_id \<and> fp = sha256 (normalize_recipe_text msg))"
  by (auto simp: claim_recipe_fingerprint_def Let_def fingerprint_taken_def)

lemma strip_inner:
  assumes "\<exists>c \<in> set a. \<not> is_space c" "\<exists>c \<in> set b. \<not> is_space c"
  shows "strip (a @ ws @ b) = dropWhile is_space a @ ws @ rev (dropWhile is_space (rev b))"
proof -
  have 1: "dropWhile is_space (a @ ws @ b) = dropWhile is_space a @ ws @ b"
    using assms(1) by (auto simp: dropWhile_append1)
  have 2: "dropWhile is_space (rev b @ rev ws @ rev (dropWhile is_space a)) =
      dropWhile is_space (rev b) @ rev ws @ rev (dropWhile is_space a)"
    using assms(2) by (auto simp: dropWhile_append1)
  show ?thesis by (simp add: strip_def 1 2)
qed

lemma normalize_inner_whitespace:
  assumes a: "\<exists>c \<in> set a. \<not> is_space c" and b: "\<exists>c \<in> set b. \<not> is_space c"
    and ws: "ws \<noteq> []" "\<forall>c \<in> set ws. is_space c"
    and ws': "ws' \<noteq> []" "\<forall>c \<in> set ws'. is_space c"
  shows "normalize_recipe_text (a @ ws @ b) = normalize_recipe_text (a @ ws' @ b)"
proof -
  let ?a = "lower (dropWhile is_space a)" and ?b = "lower (rev (dropWhile is_space (rev b)))"
  have l: "lower w \<noteq> [] \<and> (\<forall>c \<in> set (lower w). is_space c)" if "w \<noteq> []" "\<forall>c \<in> set w. is_space c" for w
    using that by (simp add: lower_def is_space_lower_char)
  have "normalize_recipe_text (a @ w @ b) = collapse_ws (?a @ CHR '' '' # ?b)"
    if "w \<noteq> []" "\<forall>c \<in> set w. is_space c" for w
  proof -
    have "normalize_recipe_text (a @ w @ b) = collapse_ws (?a @ lower w @ ?b)"
      by (simp add: normalize_recipe_text_def strip_inner [OF a b] lower_def)
    also have "\<dots> = collapse_ws (?a @ CHR '' '' # ?b)"
      using l [OF that] by (intro collapse_ws_run) auto
    finally show ?thesis .
  qed
  from this [OF ws] this [OF ws'] show ?thesis by simp
qed

text \<open>
  C9. A validator kind other than \<open>x_profile\<close>, \<open>tg_username\<close> and \<open>recipe_text\<close> makes
  \<open>validate\<close> return (True, "", text) for every text, and a mission without a \<open>validator\<close>
  entry is validated under the kind "", so it accepts every submission unchanged.
\<close>

theorem validate_unrecognized_accepts:
  "(validator \<noteq> ''x_profile'' \<and> validator \<noteq> ''tg_username'' \<and> validator \<noteq> ''recipe_text''
      \<longrightarrow> validate validator msg = (True, '''', msg))
   \<and> (m_validator m = None \<longrightarrow> validate (mission_validator m) msg = (True, '''', msg))"
  by (simp add: validate_def mission_validator_def)

theorem validate_unrecognized_accepts_witness:
  "(''wallet'' \<noteq> ''x_profile'' \<and> ''wallet'' \<noteq> ''tg_username'' \<and> ''wallet'' \<noteq> ''recipe_text'')
   \<and> validate ''wallet'' ''not a wallet'' = (True, '''', ''not a wallet'')
   \<and> m_validator \<lparr>m_id = ''join'', m_points = 5, m_delay_minutes = 0, m_validator = None\<rparr> = None
   \<and> validate (mission_validator \<lparr>m_id = ''join'', m_points = 5, m_delay_minutes = 0, m_validator = None\<rparr>)
        ''x'' = (True, '''', ''x'')"
proof -
  have h: "''wallet'' \<noteq> ''x_profile'' \<and> ''wallet'' \<noteq> ''tg_username'' \<and> ''wallet'' \<noteq> ''recipe_text''"
    by simp
  have h2: "m_validator \<lparr>m_id = ''join'', m_points = 5, m_delay_minutes = 0, m_validator = None\<rparr> = None"
    by simp
  note c1 = validate_unrecognized_accepts [where validator = "''wallet''" and msg = "''not a wallet''",
      THEN conjunct1, THEN mp, OF h]
  note c2 = validate_unrecognized_accepts [where msg = "''x''"
      and m = "\<lparr>m_id = ''join'', m_points = 5, m_delay_minutes = 0, m_validator = None\<rparr>",
      THEN conjunct2, THEN mp, OF h2]
  show ?thesis
    by (intro conjI h [THEN conjunct1] h [THEN conjunct2, THEN conjunct1]
        h [THEN conjunct2, THEN conjunct2] h2 c1 c2)
qed



text \<open>
  C10. The store is keyed on (mission, digest): the result of a claim does not depend on the
  claiming user, a second claim of the same text for the same mission by the same user
  returns False, and a claim of content already in the store writes nothing.
\<close>

theorem fingerprint_keyed_without_user:
  "\<not> fst (claim_recipe_fingerprint dg (snd (claim_recipe_fingerprint dg s m u msg)) m u msg)
   \<and> fst (claim_recipe_fingerprint dg s m u msg) = fst (claim_recipe_fingerprint dg s m u' msg)
   \<and> (fingerprint_taken s m (dg (normalize_recipe_text msg)) \<longrightarrow>
        claim_recipe_fingerprint dg s m u msg = (False, s))"
  by (simp add: claim_fst claim_taken) (simp add: claim_recipe_fingerprint_def)

theorem fingerprint_keyed_without_user_witness:
  "fingerprint_taken (snd (claim_recipe_fingerprint (\<lambda>t. t) init_db ''recipe_submit'' 1 ''Mix flour''))
       ''recipe_submit'' (normalize_recipe_text ''Mix flour'')
   \<and> claim_recipe_fingerprint (\<lambda>t. t)
        (snd (claim_recipe_fingerprint (\<lambda>t. t) init_db ''recipe_submit'' 1 ''Mix flour''))
        ''recipe_submit'' 1 ''Mix flour'' =
      (False, snd (claim_recipe_fingerprint (\<lambda>t. t) init_db ''recipe_submit'' 1 ''Mix flour''))"
proof -
  have h: "fingerprint_taken (snd (claim_recipe_fingerprint (\<lambda>t. t) init_db ''recipe_submit'' 1 ''Mix flour''))
       ''recipe_submit'' (normalize_recipe_text ''Mix flour'')"
    by (simp add: claim_taken)
  note c = fingerprint_keyed_without_user [where dg = "\<lambda>t. t" and m = "''recipe_submit''" and u = 1
      and msg = "''Mix flour''"
      and s = "snd (claim_recipe_fingerprint (\<lambda>t. t) init_db ''recipe_submit'' 1 ''Mix flour'')",
      THEN conjunct2, THEN conjunct2, THEN mp, OF h]
  show ?thesis
    by (intro conjI h c)
qed

section \<open>The check-in streak\<close>

lemma streak_loop_counts:
  "\<forall>k<n. \<exists>dk. days_before k d = Some dk \<and> dk \<in> dates \<Longrightarrow>
   days_before n d = Some gap \<Longrightarrow> gap \<notin> dates \<Longrightarrow>
   streak_loop dates d acc = Inr (acc + n)"
proof (induction n arbitrary: d acc)
  case 0
  then show ?case by (simp add: streak_loop.simps)
next
  case (Suc n)
  from Suc.prems(1) have "\<exists>dk. days_before 0 d = Some dk \<and> dk \<in> dates" by blast
  then have din: "d \<in> dates" by simp
  from Suc.prems(2) obtain d' where d': "minus_one_day d = Inr d'" and gap': "days_before n d' = Some gap"
    by (auto split: sum.splits)
  have "\<forall>k<n. \<exists>dk. days_before k d' = Some dk \<and> dk \<in> dates"
  proof (intro allI impI)
    fix k assume "k < n"
    then have "Suc k < Suc n" by simp
    with Suc.prems(1) have "\<exists>dk. days_before (Suc k) d = Some dk \<and> dk \<in> dates" by blast
    then show "\<exists>dk. days_before k d' = Some dk \<and> dk \<in> dates" using d' by simp
  qed
  from Suc.IH [OF this gap' Suc.prems(3)] have "streak_loop dates d' (acc + 1) = Inr (acc + 1 + n)" .
  then show ?case using din d' by (simp add: streak_loop.simps [of dates d])
qed

text \<open>
  C7. When the check-in dates of a user contain the \<open>n\<close> days ending at \<open>today\<close> and not
  the day before them, \<open>compute_streak\<close> returns \<open>n\<close>; with \<open>n = 0\<close> this says that a user
  without a check-in today has streak 0, and whatever lies before the gap is not counted.
\<close>

theorem compute_streak_counts:
  assumes "\<forall>k<n. \<exists>dk. days_before k today = Some dk \<and> dk \<in> get_checkin_dates s uid"
      and "days_before n today = Some gap"
      and "gap \<notin> get_checkin_dates s uid"
  shows "compute_streak s uid today = Inr n"
  using streak_loop_counts [OF assms, of 0] by (simp add: compute_streak_def)

theorem compute_streak_counts_witness:
  "compute_streak
     (init_db\<lparr>ledger :=
        [\<lparr>l_user_id = 7, l_unique_key = ''daily_checkin:2024-01-02'', l_type = ''daily_checkin'',
          l_amount = 10, l_meta = []\<rparr>,
         \<lparr>l_user_id = 7, l_unique_key = ''daily_checkin:2024-01-03'', l_type = ''daily_checkin'',
          l_amount = 10, l_meta = []\<rparr>]\<rparr>)
     7 \<lparr>d_year = 2024, d_month = 1, d_day = 3\<rparr> = Inr 2"
proof -
  define s where "s = init_db\<lparr>ledger :=
        [\<lparr>l_user_id = 7, l_unique_key = ''daily_checkin:2024-01-02'', l_type = ''daily_checkin'',
          l_amount = 10, l_meta = []\<rparr>,
         \<lparr>l_user_id = 7, l_unique_key = ''daily_checkin:2024-01-03'', l_type = ''daily_checkin'',
          l_amount = 10, l_meta = []\<rparr>]\<rparr>"
  define today where "today = \<lparr>d_year = 2024, d_month = 1, d_day = 3\<rparr>"
  have dates: "get_checkin_dates s 7 =
      {\<lparr>d_year = 2024, d_month = 1, d_day = 2\<rparr>, \<lparr>d_year = 2024, d_month = 1, d_day = 3\<rparr>}"
    unfolding s_def by code_simp
  have b1: "days_before 1 today = Some \<lparr>d_year = 2024, d_month = 1, d_day = 2\<rparr>"
    unfolding today_def by code_simp
  have b2: "days_before 2 today = Some \<lparr>d_year = 2024, d_month = 1, d_day = 1\<rparr>"
    unfolding today_def by code_simp
  have h1: "\<forall>k<2. \<exists>dk. days_before k today = Some dk \<and> dk \<in> get_checkin_dates s 7"
  proof (intro allI impI)
    fix k :: nat assume "k < 2"
    then have "k = 0 \<or> k = 1" by auto
    then show "\<exists>dk. days_before k today = Some dk \<and> dk \<in> get_checkin_dates s 7"
      using b1 by (auto simp: dates today_def)
  qed
  have h3: "\<lparr>d_year = 2024, d_month = 1, d_day = 1\<rparr> \<notin> get_checkin_dates s 7"
    by (simp add: dates)
  from compute_streak_counts [OF h1 b2 h3] show ?thesis
    by (simp add: s_def today_def)
qed

section \<open>Frame properties of the store operations\<close>

subsection \<open>Users\<close>

lemma find_map_same_id:
  "(\<And>r. u_user_id (g r) = u_user_id r) \<Longrightarrow>
     find (\<lambda>r. u_user_id r = v) (map g xs) = map_option g (find (\<lambda>r. u_user_id r = v) xs)"
  by (induction xs) simp_all

lemma get_user_update_user:
  assumes "\<And>r. u_user_id (f r) = u_user_id r"
  shows "get_user (update_user s uid f) v =
     map_option (\<lambda>r. if u_user_id r = uid then f r else r) (get_user s v)"
  unfolding get_user_def update_user_def
  by (simp add: find_map_same_id assms)

lemma get_user_id: "get_user s uid = Some r \<Longrightarrow> u_user_id r = uid"
  by (auto simp: get_user_def find_Some_iff)

lemma get_user_in: "get_user s uid = Some r \<Longrightarrow> r \<in> set (users s)"
  by (auto simp: get_user_def find_Some_iff)

lemma update_user_tables [simp]:
  "ledger (update_user s uid f) = ledger s"
  "pending_rewards (update_user s uid f) = pending_rewards s"
  "submissions (update_user s uid f) = submissions s"
  "recipe_fingerprints (update_user s uid f) = recipe_fingerprints s"
  by (simp_all add: update_user_def)

lemma ensure_user_existing:
  "get_user s uid = Some r \<Longrightarrow>
     ensure_user s uid uname tok = Inr (update_user s uid (\<lambda>r. r\<lparr>u_username := uname\<rparr>))"
  by (simp add: ensure_user_def)

lemma wallet_taken_update_user:
  assumes "\<And>r. u_user_id (f r) = u_user_id r"
  shows "wallet_taken (update_user s uid f) uid w = wallet_taken s uid w"
  using assms by (auto simp: wallet_taken_def update_user_def)

subsection \<open>Ledger\<close>

lemma add_points_once_tables [simp]:
  "users (snd (add_points_once s uid key typ amt m)) = users s"
  "pending_rewards (snd (add_points_once s uid key typ amt m)) = pending_rewards s"
  "submissions (snd (add_points_once s uid key typ amt m)) = submissions s"
  "recipe_fingerprints (snd (add_points_once s uid key typ amt m)) = recipe_fingerprints s"
  by (simp_all add: add_points_once_def)

lemma add_points_once_ledger:
  "ledger (snd (add_points_once s uid key typ amt m)) =
     ledger s @ (if ledger_has s uid key then []
       else [\<lparr>l_user_id = uid, l_unique_key = key, l_type = typ, l_amount = amt, l_meta = m\<rparr>])"
  by (simp add: add_points_once_def)

lemma ledger_unique_init: "ledger_unique init_db"
  by (simp add: ledger_unique_def init_db_def)

lemma ledger_unique_add:
  "ledger_unique s \<Longrightarrow> ledger_unique (snd (add_points_once s uid key typ amt m))"
  by (auto simp: ledger_unique_def add_points_once_ledger ledger_has_def)

lemma ledger_unique_rows_le:
  "ledger_unique s \<Longrightarrow> length (ledger_rows s uid key) \<le> 1"
proof -
  assume u: "ledger_unique s"
  have "distinct (map f xs) \<Longrightarrow> length (filter (\<lambda>r. f r = k) xs) \<le> 1" for f :: "ledger_row \<Rightarrow> int \<times> string" and xs k
  proof (induction xs)
    case Nil
    then show ?case by simp
  next
    case (Cons x xs)
    show ?case
    proof (cases "f x = k")
      case True
      from Cons.prems have "f x \<notin> f ` set xs" by simp
      with True have "\<forall>r \<in> set xs. f r \<noteq> k" by (metis imageI)
      then have "filter (\<lambda>r. f r = k) xs = []" by (simp add: filter_empty_conv)
      with True show ?thesis by simp
    next
      case False
      with Cons show ?thesis by simp
    qed
  qed
  from this [of "\<lambda>r. (l_user_id r, l_unique_key r)" "ledger s" "(uid, key)"] u
  show ?thesis by (simp add: ledger_unique_def ledger_rows_def)
qed

lemma ledger_unique_rows_one:
  "ledger_unique s \<Longrightarrow> ledger_has s uid key \<Longrightarrow> length (ledger_rows s uid key) = 1"
proof -
  assume u: "ledger_unique s" and h: "ledger_has s uid key"
  from h have "ledger_rows s uid key \<noteq> []" by (simp add: ledger_has_rows)
  then have "0 < length (ledger_rows s uid key)" by simp
  with ledger_unique_rows_le [OF u, of uid key] show ?thesis by linarith
qed

subsection \<open>Delayed rewards\<close>

lemma delete_pending_tables [simp]:
  "users (delete_pending s uid mid) = users s"
  "ledger (delete_pending s uid mid) = ledger s"
  "submissions (delete_pending s uid mid) = submissions s"
  "recipe_fingerprints (delete_pending s uid mid) = recipe_fingerprints s"
  by (simp_all add: delete_pending_def)

lemma ledger_has_delete_pending [simp]:
  "ledger_has (delete_pending s uid mid) v k = ledger_has s v k"
  by (simp add: ledger_has_def)

lemma ledger_unique_delete_pending [simp]:
  "ledger_unique (delete_pending s uid mid) = ledger_unique s"
  by (simp add: ledger_unique_def)

lemma settle_rows_tables:
  "users (snd (settle_rows s uid rows c)) = users s \<and>
   submissions (snd (settle_rows s uid rows c)) = submissions s \<and>
   recipe_fingerprints (snd (settle_rows s uid rows c)) = recipe_fingerprints s"
  by (induction rows arbitrary: s c) (simp_all add: split_def Let_def)

lemma settle_rows_pending:
  "pending_rewards (snd (settle_rows s uid rows c)) =
     filter (\<lambda>p. \<not> (p_user_id p = uid \<and> p_mission_id p \<in> p_mission_id ` set rows)) (pending_rewards s)"
proof (induction rows arbitrary: s c)
  case Nil
  then show ?case by simp
next
  case (Cons r rows)
  show ?case
    by (simp add: split_def Let_def Cons.IH delete_pending_def) (rule filter_cong, auto)
qed

lemma settle_rows_ledger_has:
  "ledger_has (snd (settle_rows s uid rows c)) v k \<longleftrightarrow>
     ledger_has s v k \<or> (v = uid \<and> k \<in> p_unique_key ` set rows)"
  by (induction rows arbitrary: s c) (auto simp: split_def Let_def add_points_once_has)

lemma settle_rows_unique:
  "ledger_unique s \<Longrightarrow> ledger_unique (snd (settle_rows s uid rows c))"
  by (induction rows arbitrary: s c) (simp_all add: split_def Let_def ledger_unique_add)

lemma settle_rows_ledger:
  "\<exists>new. ledger (snd (settle_rows s uid rows c)) = ledger s @ new \<and>
     (\<forall>r \<in> set new. l_user_id r = uid \<and>
        (\<exists>p \<in> set rows. l_unique_key r = p_unique_key p \<and> l_type r = ''mission:'' @ p_mission_id p \<and>
           l_amount r = p_amount p))"
proof (induction rows arbitrary: s c)
  case Nil
  then show ?case by simp
next
  case (Cons p rows)
  let ?s1 = "snd (add_points_once s uid (p_unique_key p) (''mission:'' @ p_mission_id p) (p_amount p)
      [(''delayed'', JBool True)])"
  let ?s2 = "delete_pending ?s1 uid (p_mission_id p)"
  let ?c = "if fst (add_points_once s uid (p_unique_key p) (''mission:'' @ p_mission_id p) (p_amount p)
      [(''delayed'', JBool True)]) then c @ [(p_mission_id p, p_amount p)] else c"
  from Cons.IH [of ?s2 ?c] obtain new where
    n1: "ledger (snd (settle_rows ?s2 uid rows ?c)) = ledger ?s2 @ new" and
    n2: "\<forall>r \<in> set new. l_user_id r = uid \<and>
        (\<exists>p \<in> set rows. l_unique_key r = p_unique_key p \<and> l_type r = ''mission:'' @ p_mission_id p \<and>
           l_amount r = p_amount p)"
    by blast
  have e: "snd (settle_rows s uid (p # rows) c) = snd (settle_rows ?s2 uid rows ?c)"
    by (simp add: split_def Let_def)
  let ?first = "if ledger_has s uid (p_unique_key p) then []
       else [\<lparr>l_user_id = uid, l_unique_key = p_unique_key p, l_type = ''mission:'' @ p_mission_id p,
              l_amount = p_amount p, l_meta = [(''delayed'', JBool True)]\<rparr>]"
  have "ledger (snd (settle_rows s uid (p # rows) c)) = ledger s @ (?first @ new)"
    using n1 by (simp only: e delete_pending_tables add_points_once_ledger append_assoc)
  moreover have "\<forall>r \<in> set (?first @ new). l_user_id r = uid \<and>
        (\<exists>q \<in> set (p # rows). l_unique_key r = p_unique_key q \<and> l_type r = ''mission:'' @ p_mission_id q \<and>
           l_amount r = p_amount q)"
    using n2 by auto
  ultimately show ?case by blast
qed

lemma process_due_rewards_tables [simp]:
  "users (snd (process_due_rewards s now uid)) = users s"
  "submissions (snd (process_due_rewards s now uid)) = submissions s"
  "recipe_fingerprints (snd (process_due_rewards s now uid)) = recipe_fingerprints s"
  by (simp_all add: process_due_rewards_def settle_rows_tables)

lemma get_user_process_due_rewards [simp]:
  "get_user (snd (process_due_rewards s now uid)) v = get_user s v"
  by (simp add: get_user_def)

lemma wallet_taken_process_due_rewards [simp]:
  "wallet_taken (snd (process_due_rewards s now uid)) v w = wallet_taken s v w"
  by (simp add: wallet_taken_def)

lemma process_due_rewards_unique:
  "ledger_unique s \<Longrightarrow> ledger_unique (snd (process_due_rewards s now uid))"
  by (simp add: process_due_rewards_def settle_rows_unique)

lemma process_due_rewards_pending:
  "\<forall>p \<in> set (pending_rewards (snd (process_due_rewards s now uid))).
      \<not> (p_user_id p = uid \<and> p_available_at_ts p \<le> now)"
  by (auto simp: process_due_rewards_def settle_rows_pending due_rows_def)

lemma process_due_rewards_pending_sub:
  "set (pending_rewards (snd (process_due_rewards s now uid))) \<subseteq> set (pending_rewards s)"
  by (auto simp: process_due_rewards_def settle_rows_pending)

lemma process_due_rewards_others:
  "p \<in> set (pending_rewards s) \<Longrightarrow> p_user_id p \<noteq> uid \<Longrightarrow>
     p \<in> set (pending_rewards (snd (process_due_rewards s now uid)))"
  by (auto simp: process_due_rewards_def settle_rows_pending)

lemma process_due_rewards_ledger_has:
  "ledger_has (snd (process_due_rewards s now uid)) v k \<longleftrightarrow>
     ledger_has s v k \<or> (v = uid \<and> k \<in> p_unique_key ` set (due_rows s now uid))"
  by (simp add: process_due_rewards_def settle_rows_ledger_has)

section \<open>Wallet confirmation\<close>

lemma prepend_Replied [simp]: "prepend pre (Replied rs, s) = (Replied (pre @ rs), s)"
  by (simp add: prepend_def)

lemma prepend_Raised [simp]: "prepend pre (Raised e rs, s) = (Raised e (pre @ rs), s)"
  by (simp add: prepend_def)

lemma snd_prepend [simp]: "snd (prepend pre res) = snd res"
  by (cases res, cases "fst res") (auto simp: prepend_def split: outcome.splits)

lemma on_callback_wallet_confirm:
  assumes "get_user s uid = Some r"
  shows "on_callback cfg s now today tok uid uname ''wallet_confirm'' =
     prepend (newly_credited (fst (process_due_rewards
          (update_user s uid (\<lambda>r. r\<lparr>u_username := uname\<rparr>)) now uid)))
       (cb_wallet_confirm cfg (snd (process_due_rewards
          (update_user s uid (\<lambda>r. r\<lparr>u_username := uname\<rparr>)) now uid)) uid)"
  by (simp add: on_callback_def ensure_user_existing [OF assms] Let_def split_def)

lemma on_callback_wallet_change_confirm:
  assumes "get_user s uid = Some r"
  shows "on_callback cfg s now today tok uid uname ''wallet_change_confirm'' =
     prepend (newly_credited (fst (process_due_rewards
          (update_user s uid (\<lambda>r. r\<lparr>u_username := uname\<rparr>)) now uid)))
       (cb_wallet_change_confirm (snd (process_due_rewards
          (update_user s uid (\<lambda>r. r\<lparr>u_username := uname\<rparr>)) now uid)) uid)"
  by (simp add: on_callback_def ensure_user_existing [OF assms] Let_def split_def)

lemma get_user_username:
  "get_user (update_user s uid (\<lambda>r. r\<lparr>u_username := uname\<rparr>)) v =
     map_option (\<lambda>r. if u_user_id r = uid then r\<lparr>u_username := uname\<rparr> else r) (get_user s v)"
  by (rule get_user_update_user) simp

lemma bex_map: "(\<exists>r \<in> set (map g xs). Q r) = (\<exists>r \<in> set xs. Q (g r))"
  by (induction xs) auto

lemma wallet_taken_update_same:
  assumes "\<And>r. u_user_id (f r) = u_user_id r" "\<And>r. u_wallet_address (f r) = u_wallet_address r"
  shows "wallet_taken (update_user s uid f) v w = wallet_taken s v w"
proof -
  have "(u_wallet_address (if u_user_id r = uid then f r else r) = Some w \<and>
         u_user_id (if u_user_id r = uid then f r else r) \<noteq> v) =
        (u_wallet_address r = Some w \<and> u_user_id r \<noteq> v)" for r
    by (simp add: assms)
  moreover have "users (update_user s uid f) = map (\<lambda>r. if u_user_id r = uid then f r else r) (users s)"
    by (simp add: update_user_def)
  ultimately show ?thesis
    by (simp only: wallet_taken_def bex_map)
qed

lemma wallet_taken_username [simp]:
  "wallet_taken (update_user s uid (\<lambda>r. r\<lparr>u_username := uname\<rparr>)) v w = wallet_taken s v w"
  by (rule wallet_taken_update_same) simp_all

lemma wallet_taken_by:
  "get_user s a = Some ra \<Longrightarrow> u_wallet_address ra = Some w \<Longrightarrow> a \<noteq> b \<Longrightarrow> wallet_taken s b w"
  using get_user_in [of s a ra] get_user_id [of s a ra]
  by (auto simp: wallet_taken_def)

lemma cb_wallet_confirm_taken:
  assumes "get_user s uid = Some r" "\<not> truthy (u_wallet_address r)" "u_wallet_pending r = Some w"
    "w \<noteq> []" "wallet_taken s uid w"
  shows "cb_wallet_confirm cfg s uid = (Replied [WalletOwnedByAnotherUser], s)"
  using assms by (simp add: cb_wallet_confirm_def)

lemma cb_wallet_confirm_registered:
  assumes "get_user s uid = Some r" "truthy (u_wallet_address r)"
  shows "cb_wallet_confirm cfg s uid = (Replied [WalletAlreadyRegistered], s)"
  using assms by (simp add: cb_wallet_confirm_def)

lemma cb_wallet_confirm_ok:
  assumes "get_user s uid = Some r" "\<not> truthy (u_wallet_address r)" "u_wallet_pending r = Some w"
    "w \<noteq> []" "\<not> wallet_taken s uid w"
  shows "cb_wallet_confirm cfg s uid =
     (Replied [WalletRegistered w],
      credit_referrer cfg
        (snd (add_points_once
           (update_user s uid (\<lambda>r. r\<lparr>u_wallet_address := Some w, u_wallet_pending := None, u_state := None\<rparr>))
           uid ''wallet_register'' ''wallet_register'' (POINT_WALLET_REGISTER cfg) []))
        uid (u_referred_by r))"
  using assms by (simp add: cb_wallet_confirm_def Let_def)

lemma cb_wallet_change_confirm_taken:
  assumes "get_user s uid = Some r" "u_wallet_address r = Some old" "old \<noteq> []"
    "u_wallet_pending r = Some w" "w \<noteq> []" "w \<noteq> old" "wallet_taken s uid w"
  shows "cb_wallet_change_confirm s uid = (Replied [WalletOwnedByAnotherUser], s)"
  using assms by (simp add: cb_wallet_change_confirm_def)

lemma credit_referrer_tables [simp]:
  "users (credit_referrer cfg s uid rf) = users s"
  "pending_rewards (credit_referrer cfg s uid rf) = pending_rewards s"
  "submissions (credit_referrer cfg s uid rf) = submissions s"
  "recipe_fingerprints (credit_referrer cfg s uid rf) = recipe_fingerprints s"
  by (simp_all add: credit_referrer_def split: option.splits)

lemma get_user_cong: "users s = users s' \<Longrightarrow> get_user s v = get_user s' v"
  by (simp add: get_user_def)

lemma get_user_prelude_self:
  assumes "get_user s uid = Some r"
  shows "get_user (snd (process_due_rewards (update_user s uid (\<lambda>r. r\<lparr>u_username := uname\<rparr>)) now uid)) uid
     = Some (r\<lparr>u_username := uname\<rparr>)"
  using assms get_user_id [OF assms] by (simp add: get_user_username)

lemma get_user_prelude_other:
  assumes "get_user s v = Some r" "v \<noteq> uid"
  shows "get_user (snd (process_due_rewards (update_user s uid (\<lambda>r. r\<lparr>u_username := uname\<rparr>)) now uid)) v
     = Some r"
  using assms get_user_id [OF assms(1)] by (simp add: get_user_username)

lemma wallet_confirm_rejected:
  assumes ab: "a \<noteq> b"
    and ra: "get_user s a = Some ra" "u_wallet_address ra = Some w"
    and rb: "get_user s b = Some rb" "u_wallet_pending rb = Some w" "w \<noteq> []"
    and nb: "\<not> truthy (u_wallet_address rb)"
  shows "on_callback cfg s now today tok b uname ''wallet_confirm'' =
     (Replied (newly_credited (fst (process_due_rewards
          (update_user s b (\<lambda>r. r\<lparr>u_username := uname\<rparr>)) now b)) @ [WalletOwnedByAnotherUser]),
      snd (process_due_rewards (update_user s b (\<lambda>r. r\<lparr>u_username := uname\<rparr>)) now b))"
proof -
  let ?s1 = "snd (process_due_rewards (update_user s b (\<lambda>r. r\<lparr>u_username := uname\<rparr>)) now b)"
  have g: "get_user ?s1 b = Some (rb\<lparr>u_username := uname\<rparr>)"
    by (rule get_user_prelude_self [OF rb(1)])
  have t: "wallet_taken ?s1 b w"
    using wallet_taken_by [OF ra ab] by simp
  have "cb_wallet_confirm cfg ?s1 b = (Replied [WalletOwnedByAnotherUser], ?s1)"
    by (rule cb_wallet_confirm_taken [OF g, where w = w]) (use nb rb wallet_taken_by [OF ra ab] in simp_all)
  then show ?thesis
    by (simp add: on_callback_wallet_confirm [OF rb(1)])
qed

lemma wallet_change_confirm_rejected:
  assumes ab: "a \<noteq> b"
    and ra: "get_user s a = Some ra" "u_wallet_address ra = Some w"
    and rb: "get_user s b = Some rb" "u_wallet_pending rb = Some w" "w \<noteq> []"
    and ob: "u_wallet_address rb = Some old" "old \<noteq> []" "old \<noteq> w"
  shows "on_callback cfg s now today tok b uname ''wallet_change_confirm'' =
     (Replied (newly_credited (fst (process_due_rewards
          (update_user s b (\<lambda>r. r\<lparr>u_username := uname\<rparr>)) now b)) @ [WalletOwnedByAnotherUser]),
      snd (process_due_rewards (update_user s b (\<lambda>r. r\<lparr>u_username := uname\<rparr>)) now b))"
proof -
  let ?s1 = "snd (process_due_rewards (update_user s b (\<lambda>r. r\<lparr>u_username := uname\<rparr>)) now b)"
  have g: "get_user ?s1 b = Some (rb\<lparr>u_username := uname\<rparr>)"
    by (rule get_user_prelude_self [OF rb(1)])
  have t: "wallet_taken ?s1 b w"
    using wallet_taken_by [OF ra ab] by simp
  have "cb_wallet_change_confirm ?s1 b = (Replied [WalletOwnedByAnotherUser], ?s1)"
    by (rule cb_wallet_change_confirm_taken [OF g, where old = old and w = w])
      (use ob rb wallet_taken_by [OF ra ab] in simp_all)
  then show ?thesis
    by (simp add: on_callback_wallet_change_confirm [OF rb(1)])
qed

lemma wallet_confirm_first_time:
  assumes r: "get_user s uid = Some r" "\<not> truthy (u_wallet_address r)" "u_wallet_pending r = Some w" "w \<noteq> []"
    and free: "\<not> wallet_taken s uid w"
  shows "on_callback cfg s now today tok uid uname ''wallet_confirm'' =
     (Replied (newly_credited (fst (process_due_rewards
          (update_user s uid (\<lambda>r. r\<lparr>u_username := uname\<rparr>)) now uid)) @ [WalletRegistered w]),
      credit_referrer cfg
        (snd (add_points_once
           (update_user (snd (process_due_rewards (update_user s uid (\<lambda>r. r\<lparr>u_username := uname\<rparr>)) now uid))
              uid (\<lambda>r. r\<lparr>u_wallet_address := Some w, u_wallet_pending := None, u_state := None\<rparr>))
           uid ''wallet_register'' ''wallet_register'' (POINT_WALLET_REGISTER cfg) []))
        uid (u_referred_by r))"
proof -
  let ?s1 = "snd (process_due_rewards (update_user s uid (\<lambda>r. r\<lparr>u_username := uname\<rparr>)) now uid)"
  have g: "get_user ?s1 uid = Some (r\<lparr>u_username := uname\<rparr>)"
    by (rule get_user_prelude_self [OF r(1)])
  have t: "\<not> wallet_taken ?s1 uid w"
    using free by simp
  have "cb_wallet_confirm cfg ?s1 uid =
     (Replied [WalletRegistered w],
      credit_referrer cfg
        (snd (add_points_once
           (update_user ?s1 uid (\<lambda>r. r\<lparr>u_wallet_address := Some w, u_wallet_pending := None, u_state := None\<rparr>))
           uid ''wallet_register'' ''wallet_register'' (POINT_WALLET_REGISTER cfg) []))
        uid (u_referred_by (r\<lparr>u_username := uname\<rparr>)))"
    by (rule cb_wallet_confirm_ok [OF g, where w = w]) (use r free in simp_all)
  then show ?thesis
    by (simp add: on_callback_wallet_confirm [OF r(1)])
qed

lemma wallet_confirm_first_time_users:
  assumes r: "get_user s uid = Some r" "\<not> truthy (u_wallet_address r)" "u_wallet_pending r = Some w" "w \<noteq> []"
    and free: "\<not> wallet_taken s uid w"
  shows "get_user (snd (on_callback cfg s now today tok uid uname ''wallet_confirm'')) v =
     map_option (\<lambda>r. if u_user_id r = uid
         then r\<lparr>u_username := uname, u_wallet_address := Some w, u_wallet_pending := None, u_state := None\<rparr>
         else r) (get_user s v)"
proof -
  let ?s1 = "snd (process_due_rewards (update_user s uid (\<lambda>r. r\<lparr>u_username := uname\<rparr>)) now uid)"
  let ?F = "\<lambda>r. r\<lparr>u_wallet_address := Some w, u_wallet_pending := None, u_state := None\<rparr>"
  have "users (snd (on_callback cfg s now today tok uid uname ''wallet_confirm'')) = users (update_user ?s1 uid ?F)"
    by (simp add: wallet_confirm_first_time [OF assms])
  then have "get_user (snd (on_callback cfg s now today tok uid uname ''wallet_confirm'')) v =
      get_user (update_user ?s1 uid ?F) v"
    by (rule get_user_cong)
  also have "\<dots> = map_option (\<lambda>r. if u_user_id r = uid then ?F r else r) (get_user ?s1 v)"
    by (rule get_user_update_user) simp
  also have "get_user ?s1 v = map_option (\<lambda>r. if u_user_id r = uid then r\<lparr>u_username := uname\<rparr> else r) (get_user s v)"
    by (simp add: get_user_username)
  finally show ?thesis
    by (cases "get_user s v") auto
qed

lemma ledger_update_user [simp]:
  "ledger_has (update_user s uid f) v k = ledger_has s v k"
  "ledger_unique (update_user s uid f) = ledger_unique s"
  "ledger_rows (update_user s uid f) v k = ledger_rows s v k"
  by (simp_all add: ledger_has_def ledger_unique_def ledger_rows_def)

lemma credit_referrer_has:
  "ledger_has s v k \<Longrightarrow> ledger_has (credit_referrer cfg s uid rf) v k"
  by (simp add: credit_referrer_def add_points_once_has split: option.splits)

lemma credit_referrer_unique:
  "ledger_unique s \<Longrightarrow> ledger_unique (credit_referrer cfg s uid rf)"
  by (simp add: credit_referrer_def ledger_unique_add split: option.splits)

lemma process_due_rewards_nothing_due:
  "due_rows s now uid = [] \<Longrightarrow> process_due_rewards s now uid = ([], s)"
  by (simp add: process_due_rewards_def)

lemma due_rows_update_user [simp]: "due_rows (update_user s uid f) now v = due_rows s now v"
  by (simp add: due_rows_def)

text \<open>
  C3. Let user \<open>b\<close> have staged the address \<open>w\<close> that is the active wallet of another user
  \<open>a\<close>. When \<open>b\<close> has no active wallet and confirms, or has one and confirms a change, the
  reply is the duplicate-address rejection, the active wallet of \<open>b\<close> stays what it was and
  that of \<open>a\<close> stays \<open>w\<close>. When both have staged \<open>w\<close>, nobody owns it, and \<open>a\<close> then \<open>b\<close>
  confirm, \<open>a\<close> is registered and \<open>b\<close> is rejected.
\<close>

theorem wallet_address_globally_unique:
  assumes ab: "a \<noteq> b"
    and ga: "get_user s a = Some ra"
    and gb: "get_user s b = Some rb"
    and pb: "u_wallet_pending rb = Some w" "w \<noteq> []"
  shows
   "(u_wallet_address ra = Some w \<and> \<not> truthy (u_wallet_address rb) \<longrightarrow>
       (\<exists>pre. fst (on_callback cfg s now today tok b uname ''wallet_confirm'') =
            Replied (pre @ [WalletOwnedByAnotherUser]))
       \<and> map_option u_wallet_address
            (get_user (snd (on_callback cfg s now today tok b uname ''wallet_confirm'')) b) =
              Some (u_wallet_address rb)
       \<and> map_option u_wallet_address
            (get_user (snd (on_callback cfg s now today tok b uname ''wallet_confirm'')) a) = Some (Some w))
    \<and> (u_wallet_address ra = Some w \<and> truthy (u_wallet_address rb) \<and> u_wallet_address rb \<noteq> Some w \<longrightarrow>
       (\<exists>pre. fst (on_callback cfg s now today tok b uname ''wallet_change_confirm'') =
            Replied (pre @ [WalletOwnedByAnotherUser]))
       \<and> map_option u_wallet_address
            (get_user (snd (on_callback cfg s now today tok b uname ''wallet_change_confirm'')) b) =
              Some (u_wallet_address rb)
       \<and> map_option u_wallet_address
            (get_user (snd (on_callback cfg s now today tok b uname ''wallet_change_confirm'')) a) =
              Some (Some w))
    \<and> (\<not> truthy (u_wallet_address ra) \<and> u_wallet_pending ra = Some w \<and> \<not> truthy (u_wallet_address rb) \<and>
        \<not> wallet_taken s a w \<longrightarrow>
       (\<exists>pre. fst (on_callback cfg s now today tok a uname_a ''wallet_confirm'') =
            Replied (pre @ [WalletRegistered w]))
       \<and> (\<exists>pre. fst (on_callback cfg (snd (on_callback cfg s now today tok a uname_a ''wallet_confirm''))
                     now' today' tok' b uname ''wallet_confirm'') =
            Replied (pre @ [WalletOwnedByAnotherUser]))
       \<and> map_option u_wallet_address
            (get_user (snd (on_callback cfg (snd (on_callback cfg s now today tok a uname_a ''wallet_confirm''))
                     now' today' tok' b uname ''wallet_confirm'')) a) = Some (Some w)
       \<and> map_option u_wallet_address
            (get_user (snd (on_callback cfg (snd (on_callback cfg s now today tok a uname_a ''wallet_confirm''))
                     now' today' tok' b uname ''wallet_confirm'')) b) = Some (u_wallet_address rb))"
proof -
  have ida: "u_user_id ra = a" and idb: "u_user_id rb = b"
    using get_user_id ga gb by auto
  have first: "(\<exists>pre. fst (on_callback cfg t n d k b uname ''wallet_confirm'') =
            Replied (pre @ [WalletOwnedByAnotherUser]))
       \<and> map_option u_wallet_address
            (get_user (snd (on_callback cfg t n d k b uname ''wallet_confirm'')) b) = Some (u_wallet_address qb)
       \<and> map_option u_wallet_address
            (get_user (snd (on_callback cfg t n d k b uname ''wallet_confirm'')) a) = Some (Some w)"
    if "get_user t a = Some qa" "u_wallet_address qa = Some w" "get_user t b = Some qb"
       "u_wallet_pending qb = Some w" "\<not> truthy (u_wallet_address qb)" for t n d k qa qb
  proof -
    note e = wallet_confirm_rejected [OF ab that(1,2,3,4) pb(2) that(5), of cfg n d k uname]
    have "get_user (snd (on_callback cfg t n d k b uname ''wallet_confirm'')) b = Some (qb\<lparr>u_username := uname\<rparr>)"
      by (simp only: e snd_conv get_user_prelude_self [OF that(3)])
    moreover have "get_user (snd (on_callback cfg t n d k b uname ''wallet_confirm'')) a = Some qa"
      by (simp only: e snd_conv get_user_prelude_other [OF that(1) ab])
    ultimately show ?thesis using that(2) by (simp add: e)
  qed
  have change: "(\<exists>pre. fst (on_callback cfg s now today tok b uname ''wallet_change_confirm'') =
            Replied (pre @ [WalletOwnedByAnotherUser]))
       \<and> map_option u_wallet_address
            (get_user (snd (on_callback cfg s now today tok b uname ''wallet_change_confirm'')) b) =
              Some (u_wallet_address rb)
       \<and> map_option u_wallet_address
            (get_user (snd (on_callback cfg s now today tok b uname ''wallet_change_confirm'')) a) =
              Some (Some w)"
    if wa: "u_wallet_address ra = Some w" and tb: "truthy (u_wallet_address rb)"
      and nw: "u_wallet_address rb \<noteq> Some w"
  proof -
    from tb obtain old where old: "u_wallet_address rb = Some old" "old \<noteq> []"
      by (auto simp: truthy_def split: option.splits)
    with nw have ow: "old \<noteq> w" by simp
    note e = wallet_change_confirm_rejected [OF ab ga wa gb pb old ow, of cfg now today tok uname]
    have "get_user (snd (on_callback cfg s now today tok b uname ''wallet_change_confirm'')) b =
        Some (rb\<lparr>u_username := uname\<rparr>)"
      by (simp only: e snd_conv get_user_prelude_self [OF gb])
    moreover have "get_user (snd (on_callback cfg s now today tok b uname ''wallet_change_confirm'')) a = Some ra"
      by (simp only: e snd_conv get_user_prelude_other [OF ga ab])
    ultimately show ?thesis using wa by (simp add: e)
  qed
  have race: "(\<exists>pre. fst (on_callback cfg s now today tok a uname_a ''wallet_confirm'') =
            Replied (pre @ [WalletRegistered w]))
       \<and> (\<exists>pre. fst (on_callback cfg (snd (on_callback cfg s now today tok a uname_a ''wallet_confirm''))
                     now' today' tok' b uname ''wallet_confirm'') =
            Replied (pre @ [WalletOwnedByAnotherUser]))
       \<and> map_option u_wallet_address
            (get_user (snd (on_callback cfg (snd (on_callback cfg s now today tok a uname_a ''wallet_confirm''))
                     now' today' tok' b uname ''wallet_confirm'')) a) = Some (Some w)
       \<and> map_option u_wallet_address
            (get_user (snd (on_callback cfg (snd (on_callback cfg s now today tok a uname_a ''wallet_confirm''))
                     now' today' tok' b uname ''wallet_confirm'')) b) = Some (u_wallet_address rb)"
    if na: "\<not> truthy (u_wallet_address ra)" and pa: "u_wallet_pending ra = Some w"
      and nb: "\<not> truthy (u_wallet_address rb)" and free: "\<not> wallet_taken s a w"
  proof -
    let ?s1 = "snd (on_callback cfg s now today tok a uname_a ''wallet_confirm'')"
    note u = wallet_confirm_first_time_users [OF ga na pa pb(2) free, of cfg now today tok uname_a]
    have g1a: "get_user ?s1 a =
        Some (ra\<lparr>u_username := uname_a, u_wallet_address := Some w, u_wallet_pending := None, u_state := None\<rparr>)"
      by (simp add: u ga ida)
    have g1b: "get_user ?s1 b = Some rb"
      using ab by (simp add: u gb idb)
    have r1: "\<exists>pre. fst (on_callback cfg s now today tok a uname_a ''wallet_confirm'') =
            Replied (pre @ [WalletRegistered w])"
      by (simp add: wallet_confirm_first_time [OF ga na pa pb(2) free])
    from first [OF g1a _ g1b pb(1) nb, of now' today' tok'] r1 show ?thesis
      by simp
  qed
  from first [OF ga _ gb pb(1)] change race show ?thesis
    by blast
qed

theorem wallet_address_globally_unique_witness:
  "(\<exists>pre. fst (on_callback scenario_config
        (init_db\<lparr>users := [scenario_user 1 (Some wallet_A) None None,
                            scenario_user 2 None (Some wallet_A) (Some ''AWAIT_WALLET'')]\<rparr>)
        0 scenario_day '''' 2 None ''wallet_confirm'') = Replied (pre @ [WalletOwnedByAnotherUser]))
   \<and> (\<exists>pre. fst (on_callback scenario_config
        (init_db\<lparr>users := [scenario_user 1 (Some wallet_A) None None,
                            scenario_user 2 (Some wallet_B) (Some wallet_A) (Some ''AWAIT_WALLET_CHANGE'')]\<rparr>)
        0 scenario_day '''' 2 None ''wallet_change_confirm'') = Replied (pre @ [WalletOwnedByAnotherUser]))
   \<and> (\<exists>pre. fst (on_callback scenario_config
        (snd (on_callback scenario_config
           (init_db\<lparr>users := [scenario_user 1 None (Some wallet_A) (Some ''AWAIT_WALLET''),
                               scenario_user 2 None (Some wallet_A) (Some ''AWAIT_WALLET'')]\<rparr>)
           0 scenario_day '''' 1 None ''wallet_confirm''))
        0 scenario_day '''' 2 None ''wallet_confirm'') = Replied (pre @ [WalletOwnedByAnotherUser]))"
proof -
  have ne: "(1::int) \<noteq> 2" "wallet_A \<noteq> []" "wallet_B \<noteq> wallet_A"
    by (simp_all add: wallet_A_def wallet_B_def)
  let ?s1 = "init_db\<lparr>users := [scenario_user 1 (Some wallet_A) None None,
                            scenario_user 2 None (Some wallet_A) (Some ''AWAIT_WALLET'')]\<rparr>"
  have a1: "get_user ?s1 1 = Some (scenario_user 1 (Some wallet_A) None None)"
    and b1: "get_user ?s1 2 = Some (scenario_user 2 None (Some wallet_A) (Some ''AWAIT_WALLET''))"
    by (simp_all add: get_user_def scenario_user_def)
  have p: "u_wallet_pending (scenario_user 2 wl (Some wallet_A) st) = Some wallet_A" for wl st
    by (simp add: scenario_user_def)
  have h1: "u_wallet_address (scenario_user 1 (Some wallet_A) None None) = Some wallet_A \<and>
      \<not> truthy (u_wallet_address (scenario_user 2 None (Some wallet_A) (Some ''AWAIT_WALLET'')))"
    by (simp add: scenario_user_def truthy_def)
  note c1 = wallet_address_globally_unique [OF ne(1) a1 b1 p ne(2), THEN conjunct1, THEN mp, OF h1,
      THEN conjunct1, of scenario_config 0 scenario_day "''''" None]
  let ?s2 = "init_db\<lparr>users := [scenario_user 1 (Some wallet_A) None None,
                            scenario_user 2 (Some wallet_B) (Some wallet_A) (Some ''AWAIT_WALLET_CHANGE'')]\<rparr>"
  have a2: "get_user ?s2 1 = Some (scenario_user 1 (Some wallet_A) None None)"
    and b2: "get_user ?s2 2 = Some (scenario_user 2 (Some wallet_B) (Some wallet_A) (Some ''AWAIT_WALLET_CHANGE''))"
    by (simp_all add: get_user_def scenario_user_def)
  have h2: "u_wallet_address (scenario_user 1 (Some wallet_A) None None) = Some wallet_A \<and>
      truthy (u_wallet_address (scenario_user 2 (Some wallet_B) (Some wallet_A) (Some ''AWAIT_WALLET_CHANGE''))) \<and>
      u_wallet_address (scenario_user 2 (Some wallet_B) (Some wallet_A) (Some ''AWAIT_WALLET_CHANGE'')) \<noteq>
        Some wallet_A"
    using ne(3) by (simp add: scenario_user_def truthy_def wallet_B_def)
  note c2 = wallet_address_globally_unique [OF ne(1) a2 b2 p ne(2), THEN conjunct2, THEN conjunct1, THEN mp,
      OF h2, THEN conjunct1, of scenario_config 0 scenario_day "''''" None]
  let ?s3 = "init_db\<lparr>users := [scenario_user 1 None (Some wallet_A) (Some ''AWAIT_WALLET''),
                               scenario_user 2 None (Some wallet_A) (Some ''AWAIT_WALLET'')]\<rparr>"
  have a3: "get_user ?s3 1 = Some (scenario_user 1 None (Some wallet_A) (Some ''AWAIT_WALLET''))"
    and b3: "get_user ?s3 2 = Some (scenario_user 2 None (Some wallet_A) (Some ''AWAIT_WALLET''))"
    by (simp_all add: get_user_def scenario_user_def)
  have h3: "\<not> truthy (u_wallet_address (scenario_user 1 None (Some wallet_A) (Some ''AWAIT_WALLET''))) \<and>
      u_wallet_pending (scenario_user 1 None (Some wallet_A) (Some ''AWAIT_WALLET'')) = Some wallet_A \<and>
      \<not> truthy (u_wallet_address (scenario_user 2 None (Some wallet_A) (Some ''AWAIT_WALLET''))) \<and>
      \<not> wallet_taken ?s3 1 wallet_A"
    by (simp add: scenario_user_def truthy_def wallet_taken_def)
  note c3 = wallet_address_globally_unique [OF ne(1) a3 b3 p ne(2), THEN conjunct2, THEN conjunct2, THEN mp,
      OF h3, THEN conjunct2, THEN conjunct1,
      of scenario_config 0 scenario_day "''''" None 0 scenario_day "''''" None]
  show ?thesis
    by (intro conjI c1 c2 c3)
qed

text \<open>
  C4. A user with a staged address that nobody owns confirms twice, on a ledger that
  satisfies its uniqueness constraint: the first confirmation registers the address, the
  second reports it as already registered, the active wallet is the staged address after
  each, the ledger holds exactly one \<open>wallet_register\<close> row of the user after each, and the
  second run changes the store only through the settlement of due rewards that begins
  every callback (not at all when none is due).
\<close>

theorem wallet_confirm_idempotent:
  assumes r: "get_user s u = Some r" "\<not> truthy (u_wallet_address r)" "u_wallet_pending r = Some w" "w \<noteq> []"
    and free: "\<not> wallet_taken s u w"
    and uniq: "ledger_unique s"
  shows
   "(\<exists>pre. fst (on_callback cfg s now today tok u uname ''wallet_confirm'') =
        Replied (pre @ [WalletRegistered w]))
    \<and> (\<exists>pre. fst (on_callback cfg (snd (on_callback cfg s now today tok u uname ''wallet_confirm''))
                 now' today' tok' u uname' ''wallet_confirm'') = Replied (pre @ [WalletAlreadyRegistered]))
    \<and> map_option u_wallet_address
         (get_user (snd (on_callback cfg s now today tok u uname ''wallet_confirm'')) u) = Some (Some w)
    \<and> map_option u_wallet_address
         (get_user (snd (on_callback cfg (snd (on_callback cfg s now today tok u uname ''wallet_confirm''))
                 now' today' tok' u uname' ''wallet_confirm'')) u) = Some (Some w)
    \<and> length (ledger_rows (snd (on_callback cfg s now today tok u uname ''wallet_confirm'')) u
         ''wallet_register'') = 1
    \<and> length (ledger_rows (snd (on_callback cfg (snd (on_callback cfg s now today tok u uname ''wallet_confirm''))
                 now' today' tok' u uname' ''wallet_confirm'')) u ''wallet_register'') = 1
    \<and> snd (on_callback cfg (snd (on_callback cfg s now today tok u uname ''wallet_confirm''))
                 now' today' tok' u uname' ''wallet_confirm'') =
       snd (process_due_rewards
         (update_user (snd (on_callback cfg s now today tok u uname ''wallet_confirm'')) u
            (\<lambda>r. r\<lparr>u_username := uname'\<rparr>)) now' u)
    \<and> (due_rows (snd (on_callback cfg s now today tok u uname ''wallet_confirm'')) now' u = [] \<longrightarrow>
         ledger (snd (on_callback cfg (snd (on_callback cfg s now today tok u uname ''wallet_confirm''))
                 now' today' tok' u uname' ''wallet_confirm'')) =
         ledger (snd (on_callback cfg s now today tok u uname ''wallet_confirm'')))"
proof -
  let ?s1 = "snd (on_callback cfg s now today tok u uname ''wallet_confirm'')"
  let ?s2 = "snd (on_callback cfg ?s1 now' today' tok' u uname' ''wallet_confirm'')"
  let ?p = "snd (process_due_rewards (update_user s u (\<lambda>r. r\<lparr>u_username := uname\<rparr>)) now u)"
  let ?F = "\<lambda>r. r\<lparr>u_wallet_address := Some w, u_wallet_pending := None, u_state := None\<rparr>"
  have idu: "u_user_id r = u" using get_user_id r(1) by simp
  note e1 = wallet_confirm_first_time [OF r free, of cfg now today tok uname]
  have s1: "?s1 = credit_referrer cfg
        (snd (add_points_once (update_user ?p u ?F) u ''wallet_register'' ''wallet_register''
           (POINT_WALLET_REGISTER cfg) [])) u (u_referred_by r)"
    by (simp add: e1)
  have c1: "\<exists>pre. fst (on_callback cfg s now today tok u uname ''wallet_confirm'') =
        Replied (pre @ [WalletRegistered w])"
    by (simp add: e1)
  have g1: "get_user ?s1 u =
      Some (r\<lparr>u_username := uname, u_wallet_address := Some w, u_wallet_pending := None, u_state := None\<rparr>)"
    by (simp add: wallet_confirm_first_time_users [OF r free] r(1) idu)
  have has1: "ledger_has ?s1 u ''wallet_register''"
    unfolding s1 by (intro credit_referrer_has) (simp add: add_points_once_has)
  have up: "ledger_unique ?p"
    using uniq by (intro process_due_rewards_unique) simp
  have uniq1: "ledger_unique ?s1"
    unfolding s1 using up by (intro credit_referrer_unique ledger_unique_add) simp
  have tr: "truthy (u_wallet_address
      (r\<lparr>u_username := uname, u_wallet_address := Some w, u_wallet_pending := None, u_state := None,
         u_username := uname'\<rparr>))"
    using r(4) by (simp add: truthy_def)
  let ?q = "snd (process_due_rewards (update_user ?s1 u (\<lambda>r. r\<lparr>u_username := uname'\<rparr>)) now' u)"
  have e2: "on_callback cfg ?s1 now' today' tok' u uname' ''wallet_confirm'' =
      (Replied (newly_credited (fst (process_due_rewards
           (update_user ?s1 u (\<lambda>r. r\<lparr>u_username := uname'\<rparr>)) now' u)) @ [WalletAlreadyRegistered]), ?q)"
    by (simp only: on_callback_wallet_confirm [OF g1]
        cb_wallet_confirm_registered [OF get_user_prelude_self [OF g1] tr] prepend_Replied)
  have s2: "?s2 = ?q" by (simp only: e2 snd_conv)
  have c2: "\<exists>pre. fst (on_callback cfg ?s1 now' today' tok' u uname' ''wallet_confirm'') =
      Replied (pre @ [WalletAlreadyRegistered])"
    by (simp only: e2 fst_conv) blast
  have g2: "map_option u_wallet_address (get_user ?s2 u) = Some (Some w)"
    by (simp only: s2 get_user_prelude_self [OF g1]) simp
  have has2: "ledger_has ?s2 u ''wallet_register''"
    using has1 by (simp only: s2 process_due_rewards_ledger_has) simp
  have uniq2: "ledger_unique ?s2"
    unfolding s2 using uniq1 by (intro process_due_rewards_unique) simp
  have nd: "due_rows ?s1 now' u = [] \<longrightarrow> ledger ?s2 = ledger ?s1"
  proof
    assume "due_rows ?s1 now' u = []"
    then have "process_due_rewards (update_user ?s1 u (\<lambda>r. r\<lparr>u_username := uname'\<rparr>)) now' u =
        ([], update_user ?s1 u (\<lambda>r. r\<lparr>u_username := uname'\<rparr>))"
      by (intro process_due_rewards_nothing_due) simp
    then show "ledger ?s2 = ledger ?s1" by (simp only: s2 snd_conv update_user_tables)
  qed
  show ?thesis
    using c1 c2 g1 g2 ledger_unique_rows_one [OF uniq1 has1] ledger_unique_rows_one [OF uniq2 has2] s2 nd
    by (intro conjI) simp_all
qed

lemma pending_after_wallet_confirm:
  assumes "pending_rewards s = []"
  shows "pending_rewards (snd (on_callback cfg s now today tok u uname ''wallet_confirm'')) = []"
proof (cases "ensure_user s u uname tok")
  case (Inl e)
  then show ?thesis using assms by (simp add: on_callback_def)
next
  case (Inr s0)
  have p0: "pending_rewards s0 = []"
    using Inr assms by (auto simp: ensure_user_def Let_def split: option.splits if_splits)
  then have "process_due_rewards s0 now u = ([], s0)"
    by (simp add: process_due_rewards_def due_rows_def)
  then show ?thesis
    using Inr p0
    by (simp add: on_callback_def cb_wallet_confirm_def Let_def split: option.splits)
qed

theorem wallet_confirm_idempotent_witness:
  "(\<exists>pre. fst (on_callback scenario_config
        (init_db\<lparr>users := [scenario_user 1 None (Some wallet_A) (Some ''AWAIT_WALLET'')]\<rparr>)
        0 scenario_day '''' 1 None ''wallet_confirm'') = Replied (pre @ [WalletRegistered wallet_A]))
   \<and> (\<exists>pre. fst (on_callback scenario_config
        (snd (on_callback scenario_config
           (init_db\<lparr>users := [scenario_user 1 None (Some wallet_A) (Some ''AWAIT_WALLET'')]\<rparr>)
           0 scenario_day '''' 1 None ''wallet_confirm''))
        60 scenario_day '''' 1 None ''wallet_confirm'') = Replied (pre @ [WalletAlreadyRegistered]))
   \<and> length (ledger_rows
        (snd (on_callback scenario_config
          (snd (on_callback scenario_config
             (init_db\<lparr>users := [scenario_user 1 None (Some wallet_A) (Some ''AWAIT_WALLET'')]\<rparr>)
             0 scenario_day '''' 1 None ''wallet_confirm''))
          60 scenario_day '''' 1 None ''wallet_confirm'')) 1 ''wallet_register'') = 1
   \<and> ledger (snd (on_callback scenario_config
          (snd (on_callback scenario_config
             (init_db\<lparr>users := [scenario_user 1 None (Some wallet_A) (Some ''AWAIT_WALLET'')]\<rparr>)
             0 scenario_day '''' 1 None ''wallet_confirm''))
          60 scenario_day '''' 1 None ''wallet_confirm'')) =
       ledger (snd (on_callback scenario_config
             (init_db\<lparr>users := [scenario_user 1 None (Some wallet_A) (Some ''AWAIT_WALLET'')]\<rparr>)
             0 scenario_day '''' 1 None ''wallet_confirm''))"
proof -
  let ?s = "init_db\<lparr>users := [scenario_user 1 None (Some wallet_A) (Some ''AWAIT_WALLET'')]\<rparr>"
  have g: "get_user ?s 1 = Some (scenario_user 1 None (Some wallet_A) (Some ''AWAIT_WALLET''))"
    by (simp add: get_user_def scenario_user_def)
  have h: "\<not> truthy (u_wallet_address (scenario_user 1 None (Some wallet_A) (Some ''AWAIT_WALLET'')))"
    "u_wallet_pending (scenario_user 1 None (Some wallet_A) (Some ''AWAIT_WALLET'')) = Some wallet_A"
    "wallet_A \<noteq> []"
    by (simp_all add: scenario_user_def truthy_def wallet_A_def)
  have free: "\<not> wallet_taken ?s 1 wallet_A"
    by (simp add: wallet_taken_def scenario_user_def)
  have uniq: "ledger_unique ?s"
    by (simp add: ledger_unique_def init_db_def)
  note t = wallet_confirm_idempotent [OF g h free uniq, of scenario_config 0 scenario_day "''''" None
      60 scenario_day "''''" None]
  have nd: "due_rows (snd (on_callback scenario_config ?s 0 scenario_day '''' 1 None ''wallet_confirm'')) 60 1 = []"
    by (simp add: due_rows_def pending_after_wallet_confirm init_db_def)
  note c1 = t [THEN conjunct1]
  note c2 = t [THEN conjunct2, THEN conjunct1]
  note c6 = t [THEN conjunct2, THEN conjunct2, THEN conjunct2, THEN conjunct2, THEN conjunct2, THEN conjunct1]
  note c8 = t [THEN conjunct2, THEN conjunct2, THEN conjunct2, THEN conjunct2, THEN conjunct2, THEN conjunct2,
      THEN conjunct2, THEN mp, OF nd]
  show ?thesis
    by (intro conjI c1 c2 c6 c8)
qed

section \<open>Text messages\<close>

lemma on_any_text_existing:
  assumes "get_user s uid = Some r"
  shows "on_any_text cfg dg s now now2 tok answer uid uname msg =
     prepend (newly_credited (fst (process_due_rewards
          (update_user s uid (\<lambda>r. r\<lparr>u_username := uname\<rparr>)) now uid)))
       (case menu_of cfg (strip msg) of
          Some Terms \<Rightarrow> (Replied [TermsText],
             snd (process_due_rewards (update_user s uid (\<lambda>r. r\<lparr>u_username := uname\<rparr>)) now uid))
        | Some Bonus \<Rightarrow> bonus
             (snd (process_due_rewards (update_user s uid (\<lambda>r. r\<lparr>u_username := uname\<rparr>)) now uid))
             tok uid uname
        | Some ConnectWallet \<Rightarrow> connect_wallet
             (snd (process_due_rewards (update_user s uid (\<lambda>r. r\<lparr>u_username := uname\<rparr>)) now uid))
             tok uid uname
        | Some Balance \<Rightarrow> balance
             (snd (process_due_rewards (update_user s uid (\<lambda>r. r\<lparr>u_username := uname\<rparr>)) now uid))
             tok uid uname
        | Some Chat \<Rightarrow> ai_chat_start
             (snd (process_due_rewards (update_user s uid (\<lambda>r. r\<lparr>u_username := uname\<rparr>)) now uid))
             tok uid uname
        | None \<Rightarrow> msg_by_state cfg dg
             (snd (process_due_rewards (update_user s uid (\<lambda>r. r\<lparr>u_username := uname\<rparr>)) now uid))
             now2 answer uid (Some (r\<lparr>u_username := uname\<rparr>)) (strip msg))"
proof -
  have "get_user (update_user s uid (\<lambda>r. r\<lparr>u_username := uname\<rparr>)) uid = Some (r\<lparr>u_username := uname\<rparr>)"
    using assms get_user_id [OF assms] by (simp add: get_user_username)
  then show ?thesis
    by (simp add: on_any_text_def ensure_user_existing [OF assms] Let_def split_def)
qed

lemma msg_by_state_mission:
  assumes "strip (case u_state r of None \<Rightarrow> [] | Some st \<Rightarrow> st) = ''MISSION:'' @ mid"
  shows "msg_by_state cfg dg s now answer uid (Some r) msg = msg_mission cfg dg s now uid mid msg"
  using assms by (simp add: msg_by_state_def Let_def)

lemma msg_mission_duplicate:
  assumes "get_mission cfg ''recipe_submit'' = Some m"
    and "validate (mission_validator m) msg = (True, err, normalized)"
    and "fingerprint_taken s ''recipe_submit'' (dg (normalize_recipe_text normalized))"
  shows "msg_mission cfg dg s now uid ''recipe_submit'' msg = (Replied [RecipeAlreadySubmitted], s)"
  using assms by (simp add: msg_mission_def claim_recipe_fingerprint_def Let_def)

lemma fingerprint_taken_cong:
  "recipe_fingerprints s = recipe_fingerprints s' \<Longrightarrow> fingerprint_taken s m fp = fingerprint_taken s' m fp"
  by (simp add: fingerprint_taken_def)

text \<open>
  C8. A user awaiting the recipe mission sends a text that validates and whose fingerprint
  is already in the store. The handler replies with the rejection and returns the store as
  its opening settlement of due rewards left it: no submission row and no fingerprint are
  added, the conversation state of the user is unchanged, no pending reward is added, the
  ledger has the key \<open>mission:recipe_submit\<close> afterwards only if it had it before or the
  settlement credited a due reward stored under it, and the ledger is untouched when no
  reward is due.
\<close>

theorem duplicate_recipe_rejection_has_no_effect:
  assumes g: "get_user s uid = Some r"
    and st: "strip (case u_state r of None \<Rightarrow> [] | Some st \<Rightarrow> st) = ''MISSION:recipe_submit''"
    and menu: "menu_of cfg (strip msg) = None"
    and m: "get_mission cfg ''recipe_submit'' = Some m"
    and v: "validate (mission_validator m) (strip msg) = (True, err, normalized)"
    and taken: "fingerprint_taken s ''recipe_submit'' (dg (normalize_recipe_text normalized))"
  shows
   "on_any_text cfg dg s now now2 tok answer uid uname msg =
      (Replied (newly_credited (fst (process_due_rewards
           (update_user s uid (\<lambda>r. r\<lparr>u_username := uname\<rparr>)) now uid)) @ [RecipeAlreadySubmitted]),
       snd (process_due_rewards (update_user s uid (\<lambda>r. r\<lparr>u_username := uname\<rparr>)) now uid))
    \<and> submissions (snd (on_any_text cfg dg s now now2 tok answer uid uname msg)) = submissions s
    \<and> recipe_fingerprints (snd (on_any_text cfg dg s now now2 tok answer uid uname msg)) =
        recipe_fingerprints s
    \<and> map_option u_state (get_user (snd (on_any_text cfg dg s now now2 tok answer uid uname msg)) uid) =
        Some (u_state r)
    \<and> set (pending_rewards (snd (on_any_text cfg dg s now now2 tok answer uid uname msg))) \<subseteq>
        set (pending_rewards s)
    \<and> (ledger_has (snd (on_any_text cfg dg s now now2 tok answer uid uname msg)) uid ''mission:recipe_submit''
         \<longleftrightarrow> ledger_has s uid ''mission:recipe_submit'' \<or>
             ''mission:recipe_submit'' \<in> p_unique_key ` set (due_rows s now uid))
    \<and> (due_rows s now uid = [] \<longrightarrow>
         ledger (snd (on_any_text cfg dg s now now2 tok answer uid uname msg)) = ledger s)"
proof -
  let ?s0 = "update_user s uid (\<lambda>r. r\<lparr>u_username := uname\<rparr>)"
  let ?s1 = "snd (process_due_rewards ?s0 now uid)"
  have st': "strip (case u_state (r\<lparr>u_username := uname\<rparr>) of None \<Rightarrow> [] | Some st \<Rightarrow> st) =
      ''MISSION:'' @ ''recipe_submit''"
    using st by simp
  have tk: "fingerprint_taken ?s1 ''recipe_submit'' (dg (normalize_recipe_text normalized))"
    using taken by (simp add: fingerprint_taken_def)
  have e: "on_any_text cfg dg s now now2 tok answer uid uname msg =
      (Replied (newly_credited (fst (process_due_rewards ?s0 now uid)) @ [RecipeAlreadySubmitted]), ?s1)"
    by (simp only: on_any_text_existing [OF g] menu option.case msg_by_state_mission [OF st']
        msg_mission_duplicate [where dg = dg, OF m v tk] prepend_Replied)
  have s': "snd (on_any_text cfg dg s now now2 tok answer uid uname msg) = ?s1"
    by (simp only: e snd_conv)
  have nd: "due_rows s now uid = [] \<longrightarrow> ledger ?s1 = ledger s"
  proof
    assume "due_rows s now uid = []"
    then have "process_due_rewards ?s0 now uid = ([], ?s0)"
      by (intro process_due_rewards_nothing_due) simp
    then show "ledger ?s1 = ledger s" by simp
  qed
  have gu: "get_user ?s1 uid = Some (r\<lparr>u_username := uname\<rparr>)"
    by (rule get_user_prelude_self [OF g])
  have ps: "set (pending_rewards ?s1) \<subseteq> set (pending_rewards s)"
    using process_due_rewards_pending_sub [of ?s0 now uid] by simp
  have lh: "ledger_has ?s1 uid ''mission:recipe_submit'' \<longleftrightarrow>
      ledger_has s uid ''mission:recipe_submit'' \<or>
      ''mission:recipe_submit'' \<in> p_unique_key ` set (due_rows s now uid)"
    by (simp add: process_due_rewards_ledger_has)
  show ?thesis
    unfolding s' using e nd gu ps lh by (intro conjI) simp_all
qed

theorem duplicate_recipe_rejection_has_no_effect_witness:
  "fst (on_any_text scenario_config (\<lambda>t. t)
      (init_db\<lparr>users := [scenario_user 2 (Some wallet_B) None (Some ''MISSION:recipe_submit'')],
         recipe_fingerprints :=
           [\<lparr>f_mission_id = ''recipe_submit'', f_fingerprint = ''mix flour'', f_user_id = 1\<rparr>]\<rparr>)
      0 0 '''' '''' 2 None ''Mix  Flour'') = Replied [RecipeAlreadySubmitted]
   \<and> submissions (snd (on_any_text scenario_config (\<lambda>t. t)
      (init_db\<lparr>users := [scenario_user 2 (Some wallet_B) None (Some ''MISSION:recipe_submit'')],
         recipe_fingerprints :=
           [\<lparr>f_mission_id = ''recipe_submit'', f_fingerprint = ''mix flour'', f_user_id = 1\<rparr>]\<rparr>)
      0 0 '''' '''' 2 None ''Mix  Flour'')) = []
   \<and> ledger (snd (on_any_text scenario_config (\<lambda>t. t)
      (init_db\<lparr>users := [scenario_user 2 (Some wallet_B) None (Some ''MISSION:recipe_submit'')],
         recipe_fingerprints :=
           [\<lparr>f_mission_id = ''recipe_submit'', f_fingerprint = ''mix flour'', f_user_id = 1\<rparr>]\<rparr>)
      0 0 '''' '''' 2 None ''Mix  Flour'')) = []
   \<and> map_option u_state (get_user (snd (on_any_text scenario_config (\<lambda>t. t)
      (init_db\<lparr>users := [scenario_user 2 (Some wallet_B) None (Some ''MISSION:recipe_submit'')],
         recipe_fingerprints :=
           [\<lparr>f_mission_id = ''recipe_submit'', f_fingerprint = ''mix flour'', f_user_id = 1\<rparr>]\<rparr>)
      0 0 '''' '''' 2 None ''Mix  Flour'')) 2) = Some (Some ''MISSION:recipe_submit'')"
proof -
  define s where "s = init_db\<lparr>users := [scenario_user 2 (Some wallet_B) None (Some ''MISSION:recipe_submit'')],
         recipe_fingerprints :=
           [\<lparr>f_mission_id = ''recipe_submit'', f_fingerprint = ''mix flour'', f_user_id = 1\<rparr>]\<rparr>"
  define m where "m = \<lparr>m_id = ''recipe_submit'', m_points = 30, m_delay_minutes = 0, m_validator = None\<rparr>"
  have g: "get_user s 2 = Some (scenario_user 2 (Some wallet_B) None (Some ''MISSION:recipe_submit''))"
    by (simp add: s_def get_user_def scenario_user_def)
  have sm: "strip ''MISSION:recipe_submit'' = ''MISSION:recipe_submit''"
    by code_simp
  have st: "strip (case u_state (scenario_user 2 (Some wallet_B) None (Some ''MISSION:recipe_submit'')) of
      None \<Rightarrow> [] | Some st \<Rightarrow> st) = ''MISSION:recipe_submit''"
    by (simp add: scenario_user_def sm)
  have sx: "strip ''Mix  Flour'' = ''Mix  Flour''"
    by code_simp
  have menu: "menu_of scenario_config (strip ''Mix  Flour'') = None"
    unfolding sx by code_simp
  have gm: "get_mission scenario_config ''recipe_submit'' = Some m"
    by (simp add: get_mission_def scenario_config_def m_def)
  have v: "validate (mission_validator m) (strip ''Mix  Flour'') = (True, '''', ''Mix  Flour'')"
    by (simp add: sx validate_def mission_validator_def m_def)
  have nz: "normalize_recipe_text ''Mix  Flour'' = ''mix flour''"
    by code_simp
  have taken: "fingerprint_taken s ''recipe_submit'' ((\<lambda>t. t) (normalize_recipe_text ''Mix  Flour''))"
    by (simp add: nz fingerprint_taken_def s_def)
  have nd: "due_rows s 0 2 = []"
    by (simp add: due_rows_def s_def init_db_def)
  note t = duplicate_recipe_rejection_has_no_effect [where dg = "\<lambda>t. t", OF g st menu gm v taken,
      of 0 0 "''''" "''''" None]
  have pd: "process_due_rewards (update_user s 2 (\<lambda>r. r\<lparr>u_username := None\<rparr>)) 0 2 =
      ([], update_user s 2 (\<lambda>r. r\<lparr>u_username := None\<rparr>))"
    using nd by (intro process_due_rewards_nothing_due) simp
  have c1: "fst (on_any_text scenario_config (\<lambda>t. t) s 0 0 '''' '''' 2 None ''Mix  Flour'') =
      Replied [RecipeAlreadySubmitted]"
    using t [THEN conjunct1] by (simp add: pd newly_credited_def)
  have c2: "submissions (snd (on_any_text scenario_config (\<lambda>t. t) s 0 0 '''' '''' 2 None ''Mix  Flour'')) = []"
    using t [THEN conjunct2, THEN conjunct1] by (simp add: s_def init_db_def)
  have c3: "ledger (snd (on_any_text scenario_config (\<lambda>t. t) s 0 0 '''' '''' 2 None ''Mix  Flour'')) = []"
    using t [THEN conjunct2, THEN conjunct2, THEN conjunct2, THEN conjunct2, THEN conjunct2, THEN conjunct2,
      THEN mp, OF nd] by (simp add: s_def init_db_def)
  have c4: "map_option u_state (get_user (snd (on_any_text scenario_config (\<lambda>t. t) s 0 0 '''' '''' 2 None
      ''Mix  Flour'')) 2) = Some (Some ''MISSION:recipe_submit'')"
    using t [THEN conjunct2, THEN conjunct2, THEN conjunct2, THEN conjunct1]
    by (simp add: scenario_user_def)
  show ?thesis
    using c1 c2 c3 c4 unfolding s_def by (intro conjI)
qed

section \<open>Settlement of delayed rewards\<close>

lemma ensure_user_tables:
  assumes "ensure_user s uid uname tok = Inr s0"
  shows "ledger s0 = ledger s" "pending_rewards s0 = pending_rewards s"
    "submissions s0 = submissions s" "recipe_fingerprints s0 = recipe_fingerprints s"
  using assms by (auto simp: ensure_user_def Let_def split: option.splits if_splits)

lemma set_state_tables [simp]:
  "ledger (set_state s uid st) = ledger s"
  "pending_rewards (set_state s uid st) = pending_rewards s"
  "submissions (set_state s uid st) = submissions s"
  "recipe_fingerprints (set_state s uid st) = recipe_fingerprints s"
  by (simp_all add: set_state_def)

lemma stage_wallet_tables [simp]:
  "ledger (stage_wallet s uid w) = ledger s"
  "pending_rewards (stage_wallet s uid w) = pending_rewards s"
  by (simp_all add: stage_wallet_def)

lemma menu_handlers_tables:
  "ledger (snd (bonus s tok uid uname)) = ledger s"
  "pending_rewards (snd (bonus s tok uid uname)) = pending_rewards s"
  "ledger (snd (connect_wallet s tok uid uname)) = ledger s"
  "pending_rewards (snd (connect_wallet s tok uid uname)) = pending_rewards s"
  "ledger (snd (balance s tok uid uname)) = ledger s"
  "pending_rewards (snd (balance s tok uid uname)) = pending_rewards s"
  "ledger (snd (ai_chat_start s tok uid uname)) = ledger s"
  "pending_rewards (snd (ai_chat_start s tok uid uname)) = pending_rewards s"
  by (auto simp: bonus_def connect_wallet_def balance_def ai_chat_start_def
      dest: ensure_user_tables split: sum.splits option.splits)

lemma strip_Nil [simp]: "strip [] = []"
  by (simp add: strip_def)

lemma msg_by_state_idle:
  "u_state r = None \<Longrightarrow> msg_by_state cfg dg s now answer uid (Some r) msg = (Replied [UseMenu], s)"
  by (simp add: msg_by_state_def)

lemma on_any_text_idle:
  assumes g: "get_user s uid = Some r" and idle: "u_state r = None"
  shows "ledger (snd (on_any_text cfg dg s now now2 tok answer uid uname msg)) =
      ledger (snd (process_due_rewards (update_user s uid (\<lambda>r. r\<lparr>u_username := uname\<rparr>)) now uid))"
    and "pending_rewards (snd (on_any_text cfg dg s now now2 tok answer uid uname msg)) =
      pending_rewards (snd (process_due_rewards (update_user s uid (\<lambda>r. r\<lparr>u_username := uname\<rparr>)) now uid))"
proof -
  have i: "u_state (r\<lparr>u_username := uname\<rparr>) = None" using idle by simp
  show "ledger (snd (on_any_text cfg dg s now now2 tok answer uid uname msg)) =
      ledger (snd (process_due_rewards (update_user s uid (\<lambda>r. r\<lparr>u_username := uname\<rparr>)) now uid))"
    by (simp add: on_any_text_existing [OF g] msg_by_state_idle [OF i] menu_handlers_tables
        split: option.splits menu.splits)
  show "pending_rewards (snd (on_any_text cfg dg s now now2 tok answer uid uname msg)) =
      pending_rewards (snd (process_due_rewards (update_user s uid (\<lambda>r. r\<lparr>u_username := uname\<rparr>)) now uid))"
    by (simp add: on_any_text_existing [OF g] msg_by_state_idle [OF i] menu_handlers_tables
        split: option.splits menu.splits)
qed

lemma claim_tables [simp]:
  "users (snd (claim_recipe_fingerprint dg s mid uid msg)) = users s"
  "ledger (snd (claim_recipe_fingerprint dg s mid uid msg)) = ledger s"
  "pending_rewards (snd (claim_recipe_fingerprint dg s mid uid msg)) = pending_rewards s"
  "submissions (snd (claim_recipe_fingerprint dg s mid uid msg)) = submissions s"
  by (simp_all add: claim_recipe_fingerprint_def Let_def)

lemma record_submission_tables [simp]:
  "users (record_submission s uid mid payload) = users s"
  "ledger (record_submission s uid mid payload) = ledger s"
  "pending_rewards (record_submission s uid mid payload) = pending_rewards s"
  "recipe_fingerprints (record_submission s uid mid payload) = recipe_fingerprints s"
  by (simp_all add: record_submission_def)

lemma pending_has_cong:
  "pending_rewards s = pending_rewards s' \<Longrightarrow> pending_has s uid mid = pending_has s' uid mid"
  by (simp add: pending_has_def)

lemma add_pending_reward_new:
  "\<not> pending_has s uid mid \<Longrightarrow> add_pending_reward s now uid mid key amt delay =
     ((True, now + delay * 60), s\<lparr>pending_rewards := pending_rewards s @
        [\<lparr>p_user_id = uid, p_mission_id = mid, p_unique_key = key, p_amount = amt,
          p_available_at_ts = now + delay * 60\<rparr>]\<rparr>)"
  by (simp add: add_pending_reward_def Let_def)

lemma msg_mission_delayed:
  assumes m: "get_mission cfg mid = Some m" and d: "0 < m_delay_minutes m"
    and v: "validate (mission_validator m) msg = (True, err, normalized)"
    and nr: "mid \<noteq> ''recipe_submit'' \<or> \<not> fingerprint_taken s mid (dg (normalize_recipe_text normalized))"
    and np: "\<not> pending_has s uid mid"
  shows "fst (msg_mission cfg dg s now uid mid msg) = Replied [SavedDelayed (m_delay_minutes m)]"
    and "ledger (snd (msg_mission cfg dg s now uid mid msg)) = ledger s"
    and "pending_rewards (snd (msg_mission cfg dg s now uid mid msg)) = pending_rewards s @
        [\<lparr>p_user_id = uid, p_mission_id = mid, p_unique_key = ''mission:'' @ mid, p_amount = m_points m,
          p_available_at_ts = now + m_delay_minutes m * 60\<rparr>]"
    and "users (snd (msg_mission cfg dg s now uid mid msg)) = users (set_state s uid None)"
proof -
  let ?row = "\<lparr>p_user_id = uid, p_mission_id = mid, p_unique_key = ''mission:'' @ mid,
      p_amount = m_points m, p_available_at_ts = now + m_delay_minutes m * 60\<rparr>"
  have e: "\<exists>s1. users s1 = users s \<and> ledger s1 = ledger s \<and> pending_rewards s1 = pending_rewards s \<and>
      msg_mission cfg dg s now uid mid msg =
        (Replied [SavedDelayed (m_delay_minutes m)],
         set_state (s1\<lparr>pending_rewards := pending_rewards s1 @ [?row]\<rparr>) uid None)"
  proof (cases "mid = ''recipe_submit''")
    case True
    let ?s2 = "record_submission (snd (claim_recipe_fingerprint dg s mid uid normalized)) uid mid normalized"
    have c: "fst (claim_recipe_fingerprint dg s mid uid normalized)"
      using nr True by (simp add: claim_fst)
    have np2: "\<not> pending_has ?s2 uid mid"
      using np pending_has_cong [of ?s2 s] by simp
    have "msg_mission cfg dg s now uid mid msg =
        (Replied [SavedDelayed (m_delay_minutes m)],
         set_state (?s2\<lparr>pending_rewards := pending_rewards ?s2 @ [?row]\<rparr>) uid None)"
      using c d True m v add_pending_reward_new [OF np2, of now "''mission:'' @ mid" "m_points m" "m_delay_minutes m"]
      by (simp add: msg_mission_def Let_def split_def)
    moreover have "users ?s2 = users s \<and> ledger ?s2 = ledger s \<and> pending_rewards ?s2 = pending_rewards s"
      by simp
    ultimately show ?thesis by blast
  next
    case False
    let ?s2 = "record_submission s uid mid normalized"
    have np2: "\<not> pending_has ?s2 uid mid"
      using np pending_has_cong [of ?s2 s] by simp
    have "msg_mission cfg dg s now uid mid msg =
        (Replied [SavedDelayed (m_delay_minutes m)],
         set_state (?s2\<lparr>pending_rewards := pending_rewards ?s2 @ [?row]\<rparr>) uid None)"
      using d False by (simp add: msg_mission_def m v Let_def split_def add_pending_reward_new [OF np2])
    moreover have "users ?s2 = users s \<and> ledger ?s2 = ledger s \<and> pending_rewards ?s2 = pending_rewards s"
      by simp
    ultimately show ?thesis by blast
  qed
  then obtain s1 where s1: "users s1 = users s" "ledger s1 = ledger s" "pending_rewards s1 = pending_rewards s"
    and e: "msg_mission cfg dg s now uid mid msg =
        (Replied [SavedDelayed (m_delay_minutes m)],
         set_state (s1\<lparr>pending_rewards := pending_rewards s1 @ [?row]\<rparr>) uid None)"
    by blast
  show "fst (msg_mission cfg dg s now uid mid msg) = Replied [SavedDelayed (m_delay_minutes m)]"
    by (simp add: e)
  show "ledger (snd (msg_mission cfg dg s now uid mid msg)) = ledger s"
    by (simp add: e s1)
  show "pending_rewards (snd (msg_mission cfg dg s now uid mid msg)) = pending_rewards s @
        [\<lparr>p_user_id = uid, p_mission_id = mid, p_unique_key = ''mission:'' @ mid, p_amount = m_points m,
          p_available_at_ts = now + m_delay_minutes m * 60\<rparr>]"
    by (simp add: e s1)
  show "users (snd (msg_mission cfg dg s now uid mid msg)) = users (set_state s uid None)"
    by (simp add: e s1 set_state_def update_user_def)
qed

lemma ledger_cong:
  assumes "ledger s = ledger s'"
  shows "ledger_has s v k = ledger_has s' v k" "ledger_unique s = ledger_unique s'"
    "ledger_rows s v k = ledger_rows s' v k"
  using assms by (simp_all add: ledger_has_def ledger_unique_def ledger_rows_def)

lemma process_due_rewards_credits_due:
  "\<forall>p \<in> set (due_rows s now uid). ledger_has (snd (process_due_rewards s now uid)) uid (p_unique_key p)"
  by (simp add: process_due_rewards_ledger_has)

lemma process_due_rewards_ledger:
  "\<exists>new. ledger (snd (process_due_rewards s now uid)) = ledger s @ new \<and>
     (\<forall>r \<in> set new. l_user_id r = uid \<and>
        (\<exists>p \<in> set (due_rows s now uid). l_unique_key r = p_unique_key p \<and>
           l_type r = ''mission:'' @ p_mission_id p \<and> l_amount r = p_amount p))"
  unfolding process_due_rewards_def by (rule settle_rows_ledger)

lemma process_due_rewards_removes:
  "p \<in> set (due_rows s now uid) \<Longrightarrow>
     \<not> pending_has (snd (process_due_rewards s now uid)) uid (p_mission_id p)"
  by (auto simp: pending_has_def process_due_rewards_def settle_rows_pending)

lemma delayed_mission_scenario:
  assumes g: "get_user s uid = Some r"
    and st: "strip (case u_state r of None \<Rightarrow> [] | Some st \<Rightarrow> st) = ''MISSION:'' @ mid"
    and menu: "menu_of cfg (strip msg) = None"
    and m: "get_mission cfg mid = Some m"
    and d: "0 < m_delay_minutes m"
    and v: "validate (mission_validator m) (strip msg) = (True, err, normalized)"
    and nr: "mid \<noteq> ''recipe_submit'' \<or> \<not> fingerprint_taken s mid (dg (normalize_recipe_text normalized))"
    and nl: "\<not> ledger_has s uid (''mission:'' @ mid)"
    and np: "\<forall>p \<in> set (pending_rewards s). p_user_id p = uid \<longrightarrow>
               p_mission_id p \<noteq> mid \<and> p_unique_key p \<noteq> ''mission:'' @ mid"
    and uniq: "ledger_unique s"
    and late: "now2 + m_delay_minutes m * 60 \<le> now'"
  shows "(\<exists>pre. fst (on_any_text cfg dg s now now2 tok answer uid uname msg) =
            Replied (pre @ [SavedDelayed (m_delay_minutes m)]))
     \<and> \<not> ledger_has (snd (on_any_text cfg dg s now now2 tok answer uid uname msg)) uid (''mission:'' @ mid)
     \<and> \<lparr>p_user_id = uid, p_mission_id = mid, p_unique_key = ''mission:'' @ mid, p_amount = m_points m,
          p_available_at_ts = now2 + m_delay_minutes m * 60\<rparr>
         \<in> set (pending_rewards (snd (on_any_text cfg dg s now now2 tok answer uid uname msg)))
     \<and> length (ledger_rows
          (snd (on_any_text cfg dg' (snd (on_any_text cfg dg s now now2 tok answer uid uname msg))
             now' now2' tok' answer' uid uname' msg')) uid (''mission:'' @ mid)) = 1
     \<and> (\<forall>row \<in> set (ledger_rows
          (snd (on_any_text cfg dg' (snd (on_any_text cfg dg s now now2 tok answer uid uname msg))
             now' now2' tok' answer' uid uname' msg')) uid (''mission:'' @ mid)). l_amount row = m_points m)
     \<and> \<not> pending_has
          (snd (on_any_text cfg dg' (snd (on_any_text cfg dg s now now2 tok answer uid uname msg))
             now' now2' tok' answer' uid uname' msg')) uid mid"
proof -
  define key where "key = ''mission:'' @ mid"
  note nl = nl [folded key_def] and np = np [folded key_def]
  let ?row = "\<lparr>p_user_id = uid, p_mission_id = mid, p_unique_key = key, p_amount = m_points m,
          p_available_at_ts = now2 + m_delay_minutes m * 60\<rparr>"
  let ?s0 = "update_user s uid (\<lambda>r. r\<lparr>u_username := uname\<rparr>)"
  let ?P = "snd (process_due_rewards ?s0 now uid)"
  let ?r' = "r\<lparr>u_username := uname\<rparr>"
  let ?s1 = "snd (on_any_text cfg dg s now now2 tok answer uid uname msg)"
  have idu: "u_user_id r = uid" using get_user_id g by simp
  have st': "strip (case u_state ?r' of None \<Rightarrow> [] | Some st \<Rightarrow> st) = ''MISSION:'' @ mid"
    using st by simp
  have e1: "on_any_text cfg dg s now now2 tok answer uid uname msg =
      prepend (newly_credited (fst (process_due_rewards ?s0 now uid)))
        (msg_mission cfg dg ?P now2 uid mid (strip msg))"
    by (simp only: on_any_text_existing [OF g] menu option.case msg_by_state_mission [OF st'])
  have subP: "set (pending_rewards ?P) \<subseteq> set (pending_rewards s)"
    using process_due_rewards_pending_sub [of ?s0 now uid] by simp
  have nrP: "mid \<noteq> ''recipe_submit'' \<or> \<not> fingerprint_taken ?P mid (dg (normalize_recipe_text normalized))"
    using nr by (simp add: fingerprint_taken_def)
  have npP: "\<not> pending_has ?P uid mid"
    using np subP by (auto simp: pending_has_def)
  note mm = msg_mission_delayed [where dg = dg, OF m d v nrP npP, of now2, folded key_def]
  obtain o1 t1 where ot: "msg_mission cfg dg ?P now2 uid mid (strip msg) = (o1, t1)"
    by (cases "msg_mission cfg dg ?P now2 uid mid (strip msg)")
  have o1: "o1 = Replied [SavedDelayed (m_delay_minutes m)]"
    using mm(1) ot by simp
  have s1: "?s1 = t1"
    by (simp add: e1 ot o1)
  have l1: "ledger ?s1 = ledger ?P" using mm(2) ot s1 by simp
  have p1: "pending_rewards ?s1 = pending_rewards ?P @ [?row]" using mm(3) ot s1 by simp
  have u1: "users ?s1 = users (set_state ?P uid None)" using mm(4) ot s1 by simp
  have c1: "\<exists>pre. fst (on_any_text cfg dg s now now2 tok answer uid uname msg) =
            Replied (pre @ [SavedDelayed (m_delay_minutes m)])"
    by (simp add: e1 ot o1)
  have "set (due_rows s now uid) \<subseteq> {p \<in> set (pending_rewards s). p_user_id p = uid}"
    by (auto simp: due_rows_def)
  with np have dueP: "\<forall>p \<in> set (due_rows s now uid). p_unique_key p \<noteq> key"
    by blast
  then have ni: "key \<notin> p_unique_key ` set (due_rows s now uid)"
    by blast
  have nlP: "\<not> ledger_has ?P uid key"
    using nl ni by (simp add: process_due_rewards_ledger_has)
  have c2: "\<not> ledger_has ?s1 uid key"
    using nlP ledger_cong(1) [OF l1] by simp
  have c3: "?row \<in> set (pending_rewards ?s1)"
    by (simp add: p1)
  have uP: "ledger_unique ?P"
    using uniq by (intro process_due_rewards_unique) simp
  have uq1: "ledger_unique ?s1"
    using uP ledger_cong(2) [OF l1] by simp
  have gP: "get_user ?P uid = Some ?r'"
    by (rule get_user_prelude_self [OF g])
  have "get_user ?s1 uid = get_user (set_state ?P uid None) uid"
    by (rule get_user_cong [OF u1])
  also have "\<dots> = map_option (\<lambda>r. if u_user_id r = uid then r\<lparr>u_state := None\<rparr> else r) (get_user ?P uid)"
    unfolding set_state_def by (rule get_user_update_user) simp
  finally have g1: "get_user ?s1 uid = Some (?r'\<lparr>u_state := None\<rparr>)"
    using gP idu by simp
  let ?t0 = "update_user ?s1 uid (\<lambda>r. r\<lparr>u_username := uname'\<rparr>)"
  let ?Q = "snd (process_due_rewards ?t0 now' uid)"
  let ?s2 = "snd (on_any_text cfg dg' ?s1 now' now2' tok' answer' uid uname' msg')"
  have idle: "u_state (?r'\<lparr>u_state := None\<rparr>) = None" by simp
  note f = on_any_text_idle [OF g1 idle, of cfg dg' now' now2' tok' answer' uname' msg']
  have due: "?row \<in> set (due_rows ?t0 now' uid)"
    using c3 late by (simp add: due_rows_def)
  have hasQ: "ledger_has ?Q uid key"
    using process_due_rewards_credits_due [of ?t0 now' uid] due by force
  have uQ: "ledger_unique ?Q"
    using uq1 by (intro process_due_rewards_unique) simp
  have c4: "length (ledger_rows ?s2 uid key) = 1"
    using ledger_unique_rows_one [OF uQ hasQ] ledger_cong(3) [OF f(1)] by simp
  have c6: "\<not> pending_has ?s2 uid mid"
    using process_due_rewards_removes [OF due] pending_has_cong [OF f(2)] by simp
  from process_due_rewards_ledger [of ?t0 now' uid] obtain new where
    n1: "ledger ?Q = ledger ?t0 @ new" and
    n2: "\<forall>r \<in> set new. l_user_id r = uid \<and>
        (\<exists>p \<in> set (due_rows ?t0 now' uid). l_unique_key r = p_unique_key p \<and>
           l_type r = ''mission:'' @ p_mission_id p \<and> l_amount r = p_amount p)"
    by blast
  have c5: "\<forall>row \<in> set (ledger_rows ?s2 uid key). l_amount row = m_points m"
  proof
    fix row assume "row \<in> set (ledger_rows ?s2 uid key)"
    then have "row \<in> set (ledger_rows ?Q uid key)"
      using ledger_cong(3) [OF f(1)] by simp
    then have rq: "row \<in> set (ledger ?Q)" "l_user_id row = uid" "l_unique_key row = key"
      by (auto simp: ledger_rows_def)
    have "row \<notin> set (ledger ?s1)"
      using c2 rq(2,3) by (auto simp: ledger_has_def)
    with rq(1) n1 have "row \<in> set new" by simp
    with n2 obtain p where p: "p \<in> set (due_rows ?t0 now' uid)" "l_unique_key row = p_unique_key p"
      "l_amount row = p_amount p" by blast
    from p(1) have pin: "p \<in> set (pending_rewards ?P) \<or> p = ?row" and pu: "p_user_id p = uid"
      by (auto simp: due_rows_def p1 split: if_splits)
    from pin show "l_amount row = m_points m"
    proof
      assume "p \<in> set (pending_rewards ?P)"
      with subP have "p \<in> set (pending_rewards s)" by blast
      with np pu have "p_unique_key p \<noteq> key" by blast
      with p(2) rq(3) show ?thesis by simp
    next
      assume "p = ?row"
      with p(3) show ?thesis by simp
    qed
  qed
  from c1 c2 c3 c4 c5 c6 show ?thesis unfolding key_def by (intro conjI)
qed

text \<open>
  C5. After \<open>process_due_rewards\<close> no pending reward of the user with an eligible time
  that has passed is left; every reward that was due is in the ledger under its stored key
  and its pending row is gone, whether the credit was new or not; the ledger grows only by
  rows of the user that carry the stored key and amount of a due reward. For a mission with
  a positive delay, on a ledger satisfying its uniqueness constraint and with no earlier
  reward for the mission: the submission leaves no ledger row \<open>mission:<id>\<close> and one
  pending row eligible after the delay, and any text message of the user once the delay has
  passed leaves exactly one ledger row \<open>mission:<id>\<close>, of the mission's points, and no
  pending row for the mission.
\<close>

theorem delayed_rewards_settled:
  "(\<forall>p \<in> set (pending_rewards (snd (process_due_rewards s now uid))).
       \<not> (p_user_id p = uid \<and> p_available_at_ts p \<le> now))
   \<and> (\<forall>p \<in> set (due_rows s now uid).
         ledger_has (snd (process_due_rewards s now uid)) uid (p_unique_key p) \<and>
         \<not> pending_has (snd (process_due_rewards s now uid)) uid (p_mission_id p))
   \<and> (\<exists>new. ledger (snd (process_due_rewards s now uid)) = ledger s @ new \<and>
         (\<forall>r \<in> set new. l_user_id r = uid \<and>
            (\<exists>p \<in> set (due_rows s now uid). l_unique_key r = p_unique_key p \<and>
               l_type r = ''mission:'' @ p_mission_id p \<and> l_amount r = p_amount p)))
   \<and> (get_user s uid = Some r \<and>
       strip (case u_state r of None \<Rightarrow> [] | Some st \<Rightarrow> st) = ''MISSION:'' @ mid \<and>
       menu_of cfg (strip msg) = None \<and>
       get_mission cfg mid = Some m \<and>
       0 < m_delay_minutes m \<and>
       validate (mission_validator m) (strip msg) = (True, err, normalized) \<and>
       (mid \<noteq> ''recipe_submit'' \<or> \<not> fingerprint_taken s mid (dg (normalize_recipe_text normalized))) \<and>
       \<not> ledger_has s uid (''mission:'' @ mid) \<and>
       (\<forall>p \<in> set (pending_rewards s). p_user_id p = uid \<longrightarrow>
               p_mission_id p \<noteq> mid \<and> p_unique_key p \<noteq> ''mission:'' @ mid) \<and>
       ledger_unique s \<and>
       now2 + m_delay_minutes m * 60 \<le> now'
      \<longrightarrow>
       (\<exists>pre. fst (on_any_text cfg dg s now now2 tok answer uid uname msg) =
            Replied (pre @ [SavedDelayed (m_delay_minutes m)]))
     \<and> \<not> ledger_has (snd (on_any_text cfg dg s now now2 tok answer uid uname msg)) uid (''mission:'' @ mid)
     \<and> \<lparr>p_user_id = uid, p_mission_id = mid, p_unique_key = ''mission:'' @ mid, p_amount = m_points m,
          p_available_at_ts = now2 + m_delay_minutes m * 60\<rparr>
         \<in> set (pending_rewards (snd (on_any_text cfg dg s now now2 tok answer uid uname msg)))
     \<and> length (ledger_rows
          (snd (on_any_text cfg dg' (snd (on_any_text cfg dg s now now2 tok answer uid uname msg))
             now' now2' tok' answer' uid uname' msg')) uid (''mission:'' @ mid)) = 1
     \<and> (\<forall>row \<in> set (ledger_rows
          (snd (on_any_text cfg dg' (snd (on_any_text cfg dg s now now2 tok answer uid uname msg))
             now' now2' tok' answer' uid uname' msg')) uid (''mission:'' @ mid)). l_amount row = m_points m)
     \<and> \<not> pending_has
          (snd (on_any_text cfg dg' (snd (on_any_text cfg dg s now now2 tok answer uid uname msg))
             now' now2' tok' answer' uid uname' msg')) uid mid)"
  (is "?G1 \<and> ?G2 \<and> ?G3 \<and> (?H \<longrightarrow> ?S)")
proof -
  have g1: ?G1
    by (rule process_due_rewards_pending)
  have g2: ?G2
    using process_due_rewards_credits_due [of s now uid] process_due_rewards_removes [of _ s now uid]
    by blast
  have g3: ?G3
    by (rule process_due_rewards_ledger)
  have sc: "?H \<longrightarrow> ?S"
  proof
    assume h: ?H
    note hs = h [THEN conjunct1] h [THEN conjunct2, THEN conjunct1]
      h [THEN conjunct2, THEN conjunct2, THEN conjunct1]
      h [THEN conjunct2, THEN conjunct2, THEN conjunct2, THEN conjunct1]
      h [THEN conjunct2, THEN conjunct2, THEN conjunct2, THEN conjunct2, THEN conjunct1]
      h [THEN conjunct2, THEN conjunct2, THEN conjunct2, THEN conjunct2, THEN conjunct2, THEN conjunct1]
      h [THEN conjunct2, THEN conjunct2, THEN conjunct2, THEN conjunct2, THEN conjunct2, THEN conjunct2,
         THEN conjunct1]
      h [THEN conjunct2, THEN conjunct2, THEN conjunct2, THEN conjunct2, THEN conjunct2, THEN conjunct2,
         THEN conjunct2, THEN conjunct1]
      h [THEN conjunct2, THEN conjunct2, THEN conjunct2, THEN conjunct2, THEN conjunct2, THEN conjunct2,
         THEN conjunct2, THEN conjunct2, THEN conjunct1]
      h [THEN conjunct2, THEN conjunct2, THEN conjunct2, THEN conjunct2, THEN conjunct2, THEN conjunct2,
         THEN conjunct2, THEN conjunct2, THEN conjunct2, THEN conjunct1]
      h [THEN conjunct2, THEN conjunct2, THEN conjunct2, THEN conjunct2, THEN conjunct2, THEN conjunct2,
         THEN conjunct2, THEN conjunct2, THEN conjunct2, THEN conjunct2]
    show ?S
      by (rule delayed_mission_scenario [where dg = dg, OF hs])
  qed
  from g1 g2 g3 sc show ?thesis
    by (intro conjI)
qed

theorem delayed_rewards_settled_witness:
  "\<not> ledger_has (snd (on_any_text scenario_config (\<lambda>t. t)
        (init_db\<lparr>users := [scenario_user 1 (Some wallet_A) None (Some ''MISSION:X'')]\<rparr>)
        0 0 '''' '''' 1 None ''done'')) 1 (''mission:'' @ ''X'')
   \<and> \<lparr>p_user_id = 1, p_mission_id = ''X'', p_unique_key = ''mission:'' @ ''X'',
       p_amount = m_points \<lparr>m_id = ''X'', m_points = 20, m_delay_minutes = 30, m_validator = None\<rparr>,
       p_available_at_ts = 0 + m_delay_minutes
          \<lparr>m_id = ''X'', m_points = 20, m_delay_minutes = 30, m_validator = None\<rparr> * 60\<rparr>
       \<in> set (pending_rewards (snd (on_any_text scenario_config (\<lambda>t. t)
        (init_db\<lparr>users := [scenario_user 1 (Some wallet_A) None (Some ''MISSION:X'')]\<rparr>)
        0 0 '''' '''' 1 None ''done'')))
   \<and> length (ledger_rows
        (snd (on_any_text scenario_config (\<lambda>t. t)
          (snd (on_any_text scenario_config (\<lambda>t. t)
            (init_db\<lparr>users := [scenario_user 1 (Some wallet_A) None (Some ''MISSION:X'')]\<rparr>)
            0 0 '''' '''' 1 None ''done''))
          1800 1800 '''' '''' 1 None ''hello'')) 1 (''mission:'' @ ''X'')) = 1
   \<and> \<not> pending_has
        (snd (on_any_text scenario_config (\<lambda>t. t)
          (snd (on_any_text scenario_config (\<lambda>t. t)
            (init_db\<lparr>users := [scenario_user 1 (Some wallet_A) None (Some ''MISSION:X'')]\<rparr>)
            0 0 '''' '''' 1 None ''done''))
          1800 1800 '''' '''' 1 None ''hello'')) 1 ''X''"
proof -
  define s where "s = init_db\<lparr>users := [scenario_user 1 (Some wallet_A) None (Some ''MISSION:X'')]\<rparr>"
  define m where "m = \<lparr>m_id = ''X'', m_points = 20, m_delay_minutes = 30, m_validator = None\<rparr>"
  have g: "get_user s 1 = Some (scenario_user 1 (Some wallet_A) None (Some ''MISSION:X''))"
    by (simp add: s_def get_user_def scenario_user_def)
  have sm: "strip ''MISSION:X'' = ''MISSION:X''"
    by code_simp
  have st: "strip (case u_state (scenario_user 1 (Some wallet_A) None (Some ''MISSION:X'')) of
      None \<Rightarrow> [] | Some st \<Rightarrow> st) = ''MISSION:'' @ ''X''"
    by (simp add: scenario_user_def sm)
  have sx: "strip ''done'' = ''done''"
    by code_simp
  have menu: "menu_of scenario_config (strip ''done'') = None"
    unfolding sx by code_simp
  have gm: "get_mission scenario_config ''X'' = Some m"
    by (simp add: get_mission_def scenario_config_def m_def)
  have d: "0 < m_delay_minutes m"
    by (simp add: m_def)
  have v: "validate (mission_validator m) (strip ''done'') = (True, '''', ''done'')"
    by (simp add: sx validate_def mission_validator_def m_def)
  have nr: "''X'' \<noteq> ''recipe_submit'' \<or>
      \<not> fingerprint_taken s ''X'' ((\<lambda>t. t) (normalize_recipe_text ''done''))"
    by simp
  have nl: "\<not> ledger_has s 1 (''mission:'' @ ''X'')"
    by (simp add: ledger_has_def s_def init_db_def)
  have np: "\<forall>p \<in> set (pending_rewards s). p_user_id p = 1 \<longrightarrow>
      p_mission_id p \<noteq> ''X'' \<and> p_unique_key p \<noteq> ''mission:'' @ ''X''"
    by (simp add: s_def init_db_def)
  have uq: "ledger_unique s"
    by (simp add: ledger_unique_def s_def init_db_def)
  have late: "(0::int) + m_delay_minutes m * 60 \<le> 1800"
    by (simp add: m_def)
  note h = conjI [OF g conjI [OF st conjI [OF menu conjI [OF gm conjI [OF d conjI [OF v conjI [OF nr
      conjI [OF nl conjI [OF np conjI [OF uq late]]]]]]]]]]
  note t = delayed_rewards_settled [where dg = "\<lambda>t. t" and dg' = "\<lambda>t. t" and s = s and uid = 1
      and mid = "''X''" and cfg = scenario_config and msg = "''done''" and m = m and err = "''''"
      and normalized = "''done''" and ?now2.0 = 0 and now' = 1800
      and r = "scenario_user 1 (Some wallet_A) None (Some ''MISSION:X'')"
      and now = 0 and tok = "''''" and answer = "''''" and uname = None and ?now2' = 1800
      and tok' = "''''" and answer' = "''''" and uname' = None and msg' = "''hello''",
      THEN conjunct2, THEN conjunct2, THEN conjunct2, THEN mp, OF h]
  note c2 = t [THEN conjunct2, THEN conjunct1]
  note c3 = t [THEN conjunct2, THEN conjunct2, THEN conjunct1]
  note c4 = t [THEN conjunct2, THEN conjunct2, THEN conjunct2, THEN conjunct1]
  note c6 = t [THEN conjunct2, THEN conjunct2, THEN conjunct2, THEN conjunct2, THEN conjunct2]
  show ?thesis
    using c2 c3 c4 c6 unfolding s_def m_def by (intro conjI)
qed

section \<open>Ledger keys\<close>

lemma grows_iff:
  "ledger_grows_by s s' P \<longleftrightarrow> (\<exists>new. ledger s' = ledger s @ new \<and> (\<forall>r \<in> set new. P r))"
proof
  assume g: "ledger_grows_by s s' P"
  then have "ledger s' = ledger s @ drop (length (ledger s)) (ledger s')"
    by (metis append_take_drop_id ledger_grows_by_def)
  with g show "\<exists>new. ledger s' = ledger s @ new \<and> (\<forall>r \<in> set new. P r)"
    by (auto simp: ledger_grows_by_def list_all_iff)
next
  assume "\<exists>new. ledger s' = ledger s @ new \<and> (\<forall>r \<in> set new. P r)"
  then show "ledger_grows_by s s' P"
    by (auto simp: ledger_grows_by_def list_all_iff)
qed

lemma grows_same: "ledger s' = ledger s \<Longrightarrow> ledger_grows_by s s' P"
  by (simp add: ledger_grows_by_def)

lemma grows_trans:
  "ledger_grows_by s s1 P \<Longrightarrow> ledger_grows_by s1 s2 P \<Longrightarrow> ledger_grows_by s s2 P"
  unfolding grows_iff by auto

lemma grows_mono:
  "ledger_grows_by s s' P \<Longrightarrow> (\<And>r. P r \<Longrightarrow> Q r) \<Longrightarrow> ledger_grows_by s s' Q"
  unfolding grows_iff by auto

lemma grows_add:
  "P \<lparr>l_user_id = uid, l_unique_key = key, l_type = typ, l_amount = amt, l_meta = m\<rparr> \<Longrightarrow>
     ledger_grows_by s (snd (add_points_once s uid key typ amt m)) P"
  unfolding grows_iff by (simp add: add_points_once_ledger)

lemma grant_streak_bonuses_grows:
  "ledger_grows_by s (snd (grant_streak_bonuses s uid streak ts rules bonus_lines))
     (\<lambda>r. l_user_id r = uid \<and> l_type r = ''streak_bonus'' \<and>
        (\<exists>(d, p) \<in> set rules. l_unique_key r = ''streak_bonus:'' @ str_int d @ '':'' @ ts))"
proof (induction rules arbitrary: s bonus_lines)
  case Nil
  then show ?case by (simp add: grows_same)
next
  case (Cons rule rules)
  obtain days points where rule: "rule = (days, points)" by (cases rule)
  let ?P = "\<lambda>rs r. l_user_id r = uid \<and> l_type r = ''streak_bonus'' \<and>
        (\<exists>(d, p) \<in> set rs. l_unique_key r = ''streak_bonus:'' @ str_int d @ '':'' @ ts)"
  have step: "ledger_grows_by t (snd (grant_streak_bonuses t uid streak ts rules bl)) (?P (rule # rules))" for t bl
    by (rule grows_mono [OF Cons.IH]) auto
  show ?case
  proof (cases "int streak = days")
    case False
    then show ?thesis using step by (simp add: rule)
  next
    case True
    let ?a = "add_points_once s uid (''streak_bonus:'' @ str_int days @ '':'' @ ts) ''streak_bonus'' points
        [(''days'', JInt days), (''date'', JStr ts)]"
    have "ledger_grows_by s (snd ?a) (?P (rule # rules))"
      by (rule grows_add) (simp add: rule)
    from grows_trans [OF this step]
    show ?thesis using True by (simp add: rule split_def Let_def)
  qed
qed

lemma cb_daily_checkin_grows:
  "ledger_grows_by s (snd (cb_daily_checkin cfg s today uid user_row))
     (\<lambda>r. l_user_id r = uid \<and>
        (l_unique_key r = ''daily_checkin:'' @ strftime_ymd today \<and> l_type r = ''daily_checkin'' \<or>
         l_type r = ''streak_bonus'' \<and>
         (\<exists>(d, p) \<in> set (STREAK_BONUSES cfg).
            l_unique_key r = ''streak_bonus:'' @ str_int d @ '':'' @ strftime_ymd today)))"
  (is "ledger_grows_by s _ ?P")
proof (cases user_row)
  case None
  then show ?thesis by (simp add: cb_daily_checkin_def grows_same)
next
  case (Some row)
  show ?thesis
  proof (cases "truthy (u_wallet_address row)")
    case False
    then show ?thesis using Some by (simp add: cb_daily_checkin_def grows_same)
  next
    case True
    let ?ts = "strftime_ymd today"
    let ?a = "add_points_once s uid (''daily_checkin:'' @ ?ts) ''daily_checkin'' (POINT_DAILY_CHECKIN cfg)
        [(''date'', JStr ?ts)]"
    have g1: "ledger_grows_by s (snd ?a) ?P"
      by (rule grows_add) simp
    have g2: "ledger_grows_by (snd ?a) (snd (grant_streak_bonuses (snd ?a) uid n ?ts (STREAK_BONUSES cfg) [])) ?P" for n
      by (rule grows_mono [OF grant_streak_bonuses_grows]) auto
    show ?thesis
    proof (cases "compute_streak (snd ?a) uid today")
      case (Inl e)
      then show ?thesis using Some True g1 by (simp add: cb_daily_checkin_def Let_def split_def)
    next
      case (Inr n)
      then show ?thesis
        using Some True g1 grows_trans [OF g1 g2 [of n]]
        by (simp add: cb_daily_checkin_def Let_def split_def)
    qed
  qed
qed

lemma cb_daily_checkin_has:
  assumes "truthy (u_wallet_address row)"
  shows "ledger_has (snd (cb_daily_checkin cfg s today uid (Some row))) uid
     (''daily_checkin:'' @ strftime_ymd today)"
proof -
  let ?ts = "strftime_ymd today"
  let ?a = "add_points_once s uid (''daily_checkin:'' @ ?ts) ''daily_checkin'' (POINT_DAILY_CHECKIN cfg)
      [(''date'', JStr ?ts)]"
  have h: "ledger_has (snd ?a) uid (''daily_checkin:'' @ ?ts)"
    by (simp add: add_points_once_has)
  have mono: "ledger_has t uid k \<Longrightarrow> ledger_grows_by t t' P \<Longrightarrow> ledger_has t' uid k" for t t' k P
    unfolding grows_iff by (auto simp: ledger_has_def)
  show ?thesis
  proof (cases "compute_streak (snd ?a) uid today")
    case (Inl e)
    then show ?thesis using assms h by (simp add: cb_daily_checkin_def Let_def split_def)
  next
    case (Inr n)
    then show ?thesis
      using assms h mono [OF h grant_streak_bonuses_grows [of "snd ?a" uid n ?ts "STREAK_BONUSES cfg" "[]"]]
      by (simp add: cb_daily_checkin_def Let_def split_def)
  qed
qed

lemma add_pending_reward_tables [simp]:
  "users (snd (add_pending_reward s now uid mid key amt delay)) = users s"
  "ledger (snd (add_pending_reward s now uid mid key amt delay)) = ledger s"
  by (simp_all add: add_pending_reward_def Let_def)

lemma add_pending_reward_pending:
  "pending_rewards (snd (add_pending_reward s now uid mid key amt delay)) =
     pending_rewards s @ (if pending_has s uid mid then []
       else [\<lparr>p_user_id = uid, p_mission_id = mid, p_unique_key = key, p_amount = amt,
               p_available_at_ts = now + delay * 60\<rparr>])"
  by (simp add: add_pending_reward_def Let_def)

lemma msg_mission_unfold:
  assumes "get_mission cfg mid = Some m"
    and "validate (mission_validator m) msg = (ok, err, normalized)"
  shows "msg_mission cfg dg s now uid mid msg =
     (if \<not> ok then (Replied [ValidationFailed err], s)
      else if \<not> fst (if mid = ''recipe_submit'' then claim_recipe_fingerprint dg s mid uid normalized
                        else (True, s))
      then (Replied [RecipeAlreadySubmitted],
            snd (if mid = ''recipe_submit'' then claim_recipe_fingerprint dg s mid uid normalized else (True, s)))
      else if 0 < m_delay_minutes m then
        (if fst (fst (add_pending_reward
              (record_submission
                 (snd (if mid = ''recipe_submit'' then claim_recipe_fingerprint dg s mid uid normalized
                       else (True, s))) uid mid normalized)
              now uid mid (''mission:'' @ mid) (m_points m) (m_delay_minutes m)))
         then (Replied [SavedDelayed (m_delay_minutes m)],
               set_state (snd (add_pending_reward
                 (record_submission
                    (snd (if mid = ''recipe_submit'' then claim_recipe_fingerprint dg s mid uid normalized
                          else (True, s))) uid mid normalized)
                 now uid mid (''mission:'' @ mid) (m_points m) (m_delay_minutes m))) uid None)
         else (Replied [SavedAlreadyScheduled],
               set_state (snd (add_pending_reward
                 (record_submission
                    (snd (if mid = ''recipe_submit'' then claim_recipe_fingerprint dg s mid uid normalized
                          else (True, s))) uid mid normalized)
                 now uid mid (''mission:'' @ mid) (m_points m) (m_delay_minutes m))) uid None))
      else
        (if fst (add_points_once
              (record_submission
                 (snd (if mid = ''recipe_submit'' then claim_recipe_fingerprint dg s mid uid normalized
                       else (True, s))) uid mid normalized)
              uid (''mission:'' @ mid) (''mission:'' @ mid) (m_points m) [(''payload'', JStr normalized)])
         then (Replied [SavedPoints (m_points m)],
               set_state (snd (add_points_once
                 (record_submission
                    (snd (if mid = ''recipe_submit'' then claim_recipe_fingerprint dg s mid uid normalized
                          else (True, s))) uid mid normalized)
                 uid (''mission:'' @ mid) (''mission:'' @ mid) (m_points m) [(''payload'', JStr normalized)]))
                 uid None)
         else (Replied [SavedAlreadyGranted],
               set_state (snd (add_points_once
                 (record_submission
                    (snd (if mid = ''recipe_submit'' then claim_recipe_fingerprint dg s mid uid normalized
                          else (True, s))) uid mid normalized)
                 uid (''mission:'' @ mid) (''mission:'' @ mid) (m_points m) [(''payload'', JStr normalized)]))
                 uid None)))"
  by (simp add: msg_mission_def assms Let_def split_def cong: if_cong)

lemma msg_mission_grows:
  "ledger_grows_by s (snd (msg_mission cfg dg s now uid mid msg))
     (\<lambda>r. l_user_id r = uid \<and> l_unique_key r = ''mission:'' @ mid \<and> l_type r = ''mission:'' @ mid)"
  (is "ledger_grows_by s _ ?P")
proof (cases "get_mission cfg mid")
  case None
  then show ?thesis by (simp add: msg_mission_def grows_same)
next
  case (Some m)
  obtain ok err normalized where v: "validate (mission_validator m) msg = (ok, err, normalized)"
    by (cases "validate (mission_validator m) msg") auto
  let ?c = "if mid = ''recipe_submit'' then claim_recipe_fingerprint dg s mid uid normalized else (True, s)"
  let ?s2 = "record_submission (snd ?c) uid mid normalized"
  have lc: "ledger (snd ?c) = ledger s" by simp
  have l2: "ledger ?s2 = ledger s" by simp
  let ?a = "add_points_once ?s2 uid (''mission:'' @ mid) (''mission:'' @ mid) (m_points m)
      [(''payload'', JStr normalized)]"
  let ?ap = "add_pending_reward ?s2 now uid mid (''mission:'' @ mid) (m_points m) (m_delay_minutes m)"
  have ga: "ledger_grows_by s (set_state (snd ?a) uid None) ?P"
  proof -
    have "ledger_grows_by s (snd ?a) ?P"
      by (rule grows_trans [OF grows_same [OF l2] grows_add]) simp
    then show ?thesis by (simp add: ledger_grows_by_def)
  qed
  have gp: "ledger_grows_by s (set_state (snd ?ap) uid None) ?P"
    by (rule grows_same) (simp only: set_state_tables add_pending_reward_tables l2)
  have gc: "ledger_grows_by s (snd ?c) ?P"
    by (rule grows_same [OF lc])
  have gs: "ledger_grows_by s s ?P"
    by (simp add: grows_same)
  show ?thesis
    unfolding msg_mission_unfold [OF Some v]
    using ga gp gc gs by (simp only: if_distrib [of snd] snd_conv if_cancel split: if_split) simp
qed

lemma msg_mission_pending:
  "\<forall>p \<in> set (pending_rewards (snd (msg_mission cfg dg s now uid mid msg))).
      p \<in> set (pending_rewards s) \<or>
      (p_user_id p = uid \<and> p_mission_id p = mid \<and> p_unique_key p = ''mission:'' @ mid)"
proof (cases "get_mission cfg mid")
  case None
  then show ?thesis by (simp add: msg_mission_def)
next
  case (Some m)
  obtain ok err normalized where v: "validate (mission_validator m) msg = (ok, err, normalized)"
    by (cases "validate (mission_validator m) msg") auto
  show ?thesis
    unfolding msg_mission_unfold [OF Some v]
    by (auto simp: add_pending_reward_pending split: if_splits)
qed

lemma cb_wallet_confirm_grows:
  "ledger_grows_by s (snd (cb_wallet_confirm cfg s uid))
     (\<lambda>r. l_user_id r = uid \<and> l_unique_key r = ''wallet_register'' \<or>
          (\<exists>dbrow. get_user s uid = Some dbrow \<and> u_referred_by dbrow = Some (l_user_id r) \<and>
             l_unique_key r = ''referral:'' @ str_int uid))"
  (is "ledger_grows_by s _ ?P")
proof (cases "get_user s uid")
  case None
  then show ?thesis by (simp add: cb_wallet_confirm_def grows_same)
next
  case (Some dbrow)
  have cr: "ledger_grows_by t (credit_referrer cfg t uid (u_referred_by dbrow)) ?P" for t
    using Some by (auto simp: credit_referrer_def grows_same intro!: grows_add split: option.splits)
  have "ledger_grows_by s
      (credit_referrer cfg
        (snd (add_points_once (update_user s uid f) uid ''wallet_register'' ''wallet_register''
           (POINT_WALLET_REGISTER cfg) [])) uid (u_referred_by dbrow)) ?P" for f
  proof -
    have "ledger_grows_by s (update_user s uid f) ?P" by (simp add: grows_same)
    moreover have "ledger_grows_by (update_user s uid f)
        (snd (add_points_once (update_user s uid f) uid ''wallet_register'' ''wallet_register''
           (POINT_WALLET_REGISTER cfg) [])) ?P"
      by (rule grows_add) simp
    ultimately show ?thesis using cr grows_trans by blast
  qed
  then show ?thesis
    using Some by (simp add: cb_wallet_confirm_def grows_same Let_def split: option.splits)
qed




end
